theory Spec2Isabelle
  imports Main "HOL-Library.Monad_Syntax"
begin

section \<open>The Cax exchange client (src/index.js)\<close>

text \<open>
  The class \<open>Cax\<close> of \<open>src/index.js\<close> is a thin client of a REST interface. Its methods
  are embedded as HOL functions over an explicit client record and an explicit world (the
  requests handed to the HTTP transport so far, the number of clock readings). The
  collaborators that the source imports or finds in its runtime (the wallet of \<open>ethers\<close>,
  the transport \<open>axios\<close>, the clock, the local time zone and the date parser of the
  JavaScript engine) are fields of an environment record: every theorem holds for all of
  them unless it says otherwise.

  Strings are lists of 8-bit characters. Each public method is taken to run to completion
  before the next one starts (the caller awaits the promise).
\<close>

subsection \<open>Decimal digits and number rendering\<close>

definition is_digit :: "char \<Rightarrow> bool" where
  "is_digit c = (48 \<le> (of_char c :: nat) \<and> (of_char c :: nat) \<le> 57)"

definition digit_val :: "char \<Rightarrow> nat" where
  "digit_val c = of_char c - 48"

definition digit_char :: "nat \<Rightarrow> char" where
  "digit_char n = char_of (48 + n)"

definition digits_val :: "string \<Rightarrow> nat" where
  "digits_val s = foldl (\<lambda>a c. 10 * a + digit_val c) 0 s"

text \<open>The shortest decimal rendering of a natural number.\<close>

fun nat_digits :: "nat \<Rightarrow> string" where
  "nat_digits n =
     (if n < 10 then [digit_char n] else nat_digits (n div 10) @ [digit_char (n mod 10)])"

declare nat_digits.simps [simp del]

text \<open>
  \<open>Number::toString\<close> on an integral number below \<open>10^21\<close> in magnitude, which is what a
  template literal applies to the result of \<open>Date.now()\<close>.
\<close>

definition Number_toString :: "int \<Rightarrow> string" where
  "Number_toString i = (if i < 0 then CHR ''-'' # nat_digits (nat (- i)) else nat_digits (nat i))"

text \<open>The last \<open>w\<close> decimal digits of \<open>n\<close>, zero padded: the fixed-width fields of a timestamp.\<close>

fun pad_digits :: "nat \<Rightarrow> nat \<Rightarrow> string" where
  "pad_digits 0 n = []"
| "pad_digits (Suc w) n = pad_digits w (n div 10) @ [digit_char (n mod 10)]"

subsection \<open>Time values of the engine (ECMAScript, Date objects)\<close>

text \<open>
  A time value is a number of milliseconds since the epoch, or NaN (\<open>None\<close>). The
  definitions follow the ECMAScript specification of \<open>Date\<close>, which is what
  \<open>new Date(isoString)\<close> and \<open>date.toISOString()\<close> of \<open>convertToISO8601\<close> run.
\<close>

definition msPerDay :: int where "msPerDay = 86400000"
definition msPerHour :: int where "msPerHour = 3600000"
definition msPerMinute :: int where "msPerMinute = 60000"
definition msPerSecond :: int where "msPerSecond = 1000"

definition Day :: "int \<Rightarrow> int" where
  "Day t = t div msPerDay"

definition TimeWithinDay :: "int \<Rightarrow> int" where
  "TimeWithinDay t = t mod msPerDay"

definition DaysInYear :: "int \<Rightarrow> int" where
  "DaysInYear y =
     (if y mod 4 \<noteq> 0 then 365 else if y mod 100 \<noteq> 0 then 366
      else if y mod 400 \<noteq> 0 then 365 else 366)"

definition DayFromYear :: "int \<Rightarrow> int" where
  "DayFromYear y =
     365 * (y - 1970) + (y - 1969) div 4 - (y - 1901) div 100 + (y - 1601) div 400"

lemma div_succ_int:
  fixes a k :: int
  assumes "0 < k"
  shows "(a + 1) div k = a div k + (if (a + 1) mod k = 0 then 1 else 0)"
proof (cases "a mod k + 1 < k")
  case True
  have "a + 1 = k * (a div k) + (a mod k + 1)" by simp
  moreover have "0 \<le> a mod k + 1" using assms by (simp add: add_nonneg_nonneg)
  ultimately have d: "(a + 1) div k = a div k" and m: "(a + 1) mod k = a mod k + 1"
    using True int_div_pos_eq int_mod_pos_eq by blast+
  have "0 \<le> a mod k" using assms by simp
  with d m show ?thesis by simp
next
  case False
  have "a mod k < k" using assms by simp
  with False have e: "a mod k + 1 = k" by linarith
  have "a + 1 = k * (a div k) + (a mod k + 1)" by simp
  with e have "a + 1 = k * (a div k + 1) + 0" by (simp add: algebra_simps)
  then have d: "(a + 1) div k = a div k + 1" and m: "(a + 1) mod k = 0"
    using assms int_div_pos_eq int_mod_pos_eq by blast+
  then show ?thesis by simp
qed

lemma mod4_shift: "((y::int) - 1968) mod 4 = y mod 4"
proof -
  have "y - 1968 = y + 4 * (- 492)" by simp
  then show ?thesis by (simp only: mod_mult_self2)
qed
lemma mod100_shift: "((y::int) - 1900) mod 100 = y mod 100"
proof -
  have "y - 1900 = y + 100 * (- 19)" by simp
  then show ?thesis by (simp only: mod_mult_self2)
qed
lemma mod400_shift: "((y::int) - 1600) mod 400 = y mod 400"
proof -
  have "y - 1600 = y + 400 * (- 4)" by simp
  then show ?thesis by (simp only: mod_mult_self2)
qed
lemma mod100_mod4: "(y::int) mod 100 = 0 \<Longrightarrow> y mod 4 = 0"
proof -
  assume "y mod 100 = 0"
  then have "100 dvd y" by (simp add: dvd_eq_mod_eq_0)
  moreover have "(4::int) dvd 100" by simp
  ultimately have "4 dvd y" using dvd_trans by blast
  then show ?thesis by (simp add: dvd_eq_mod_eq_0)
qed
lemma mod400_mod100: "(y::int) mod 400 = 0 \<Longrightarrow> y mod 100 = 0"
proof -
  assume "y mod 400 = 0"
  then have "400 dvd y" by (simp add: dvd_eq_mod_eq_0)
  moreover have "(100::int) dvd 400" by simp
  ultimately have "100 dvd y" using dvd_trans by blast
  then show ?thesis by (simp add: dvd_eq_mod_eq_0)
qed

lemma DayFromYear_succ: "DayFromYear (y + 1) = DayFromYear y + DaysInYear y"
proof -
  have a: "(y + 1 - 1969) div 4 = (y - 1969) div 4 + (if y mod 4 = 0 then 1 else 0)"
    using div_succ_int [of 4 "y - 1969"] mod4_shift [of y] by (simp add: algebra_simps)
  have b: "(y + 1 - 1901) div 100 = (y - 1901) div 100 + (if y mod 100 = 0 then 1 else 0)"
    using div_succ_int [of 100 "y - 1901"] mod100_shift [of y] by (simp add: algebra_simps)
  have c: "(y + 1 - 1601) div 400 = (y - 1601) div 400 + (if y mod 400 = 0 then 1 else 0)"
    using div_succ_int [of 400 "y - 1601"] mod400_shift [of y] by (simp add: algebra_simps)
  show ?thesis
    unfolding DayFromYear_def DaysInYear_def a b c
    using mod400_mod100 [of y] mod100_mod4 [of y] by auto
qed

text \<open>
  \<open>YearFromTime\<close> is the largest year whose first day is not after the given day. The
  search starts at a year that is not after it (a year has at most 366 and at least 365
  days) and walks forward.
\<close>

function year_search :: "int \<Rightarrow> int \<Rightarrow> int" where
  "year_search y d = (if DayFromYear (y + 1) \<le> d then year_search (y + 1) d else y)"
  by pat_completeness auto
termination
  by (relation "measure (\<lambda>(y, d). nat (d - DayFromYear y))")
     (auto simp: DayFromYear_succ DaysInYear_def)

declare year_search.simps [simp del]

definition YearFromDay :: "int \<Rightarrow> int" where
  "YearFromDay d = year_search (1970 + (if 0 \<le> d then d div 366 else d div 365)) d"

definition YearFromTime :: "int \<Rightarrow> int" where
  "YearFromTime t = YearFromDay (Day t)"

definition InLeapYear :: "int \<Rightarrow> bool" where
  "InLeapYear t = (DaysInYear (YearFromTime t) = 366)"

definition DayWithinYear :: "int \<Rightarrow> int" where
  "DayWithinYear t = Day t - DayFromYear (YearFromTime t)"

text \<open>The number of days of a year before its month \<open>m\<close> (0 is January).\<close>

definition DaysBeforeMonth :: "bool \<Rightarrow> int \<Rightarrow> int" where
  "DaysBeforeMonth leap m =
     (let l = (if leap then 1 else 0) in
      if m \<le> 0 then 0 else if m = 1 then 31 else if m = 2 then 59 + l
      else if m = 3 then 90 + l else if m = 4 then 120 + l else if m = 5 then 151 + l
      else if m = 6 then 181 + l else if m = 7 then 212 + l else if m = 8 then 243 + l
      else if m = 9 then 273 + l else if m = 10 then 304 + l else if m = 11 then 334 + l
      else 365 + l)"

definition MonthFromTime :: "int \<Rightarrow> int" where
  "MonthFromTime t =
     (let d = DayWithinYear t; l = (if InLeapYear t then 1 else 0) in
      if d < 31 then 0 else if d < 59 + l then 1 else if d < 90 + l then 2
      else if d < 120 + l then 3 else if d < 151 + l then 4 else if d < 181 + l then 5
      else if d < 212 + l then 6 else if d < 243 + l then 7 else if d < 273 + l then 8
      else if d < 304 + l then 9 else if d < 334 + l then 10 else 11)"

definition DateFromTime :: "int \<Rightarrow> int" where
  "DateFromTime t =
     DayWithinYear t - DaysBeforeMonth (InLeapYear t) (MonthFromTime t) + 1"

definition HourFromTime :: "int \<Rightarrow> int" where
  "HourFromTime t = (t div msPerHour) mod 24"

definition MinFromTime :: "int \<Rightarrow> int" where
  "MinFromTime t = (t div msPerMinute) mod 60"

definition SecFromTime :: "int \<Rightarrow> int" where
  "SecFromTime t = (t div msPerSecond) mod 60"

definition msFromTime :: "int \<Rightarrow> int" where
  "msFromTime t = t mod msPerSecond"

definition MakeTime :: "int \<Rightarrow> int \<Rightarrow> int \<Rightarrow> int \<Rightarrow> int" where
  "MakeTime h m s ms = h * msPerHour + m * msPerMinute + s * msPerSecond + ms"

text \<open>\<open>MakeDay\<close>: the day number of the given year, month (0 is January) and day of month.\<close>

definition MakeDay :: "int \<Rightarrow> int \<Rightarrow> int \<Rightarrow> int" where
  "MakeDay year month date =
     (let ym = year + month div 12; mn = month mod 12 in
      DayFromYear ym + DaysBeforeMonth (DaysInYear ym = 366) mn + date - 1)"

definition MakeDate :: "int \<Rightarrow> int \<Rightarrow> int" where
  "MakeDate day time = day * msPerDay + time"

definition TimeClip :: "int \<Rightarrow> int option" where
  "TimeClip t = (if 8640000000000000 < \<bar>t\<bar> then None else Some t)"

subsection \<open>Errors and the engine's environment\<close>

datatype error =
    TypeError
  | RangeError
  | EthersError string
  | AxiosError string

text \<open>
  What the JavaScript engine supplies: the offset of local time from UTC in milliseconds at
  a local time value (\<open>LocalTZA(t, false)\<close>), the implementation-specific parser that
  \<open>Date.parse\<close> may fall back to for strings outside the standard format, and the clock
  (\<open>Date_now n\<close> is the value of the \<open>n\<close>-th reading of \<open>Date.now()\<close>).
\<close>

record runtime =
  LocalTZA :: "int \<Rightarrow> int"
  Date_parse_fallback :: "string \<Rightarrow> int option"
  Date_now :: "nat \<Rightarrow> int"

subsection \<open>Date.parse: the Date Time String Format\<close>

definition take_digits :: "nat \<Rightarrow> string \<Rightarrow> (nat \<times> string) option" where
  "take_digits k s =
     (if k \<le> length s \<and> list_all is_digit (take k s)
      then Some (digits_val (take k s), drop k s) else None)"

definition expect_char :: "char \<Rightarrow> string \<Rightarrow> string option" where
  "expect_char c s = (case s of [] \<Rightarrow> None | x # r \<Rightarrow> if x = c then Some r else None)"

text \<open>The zone designator of a date-time string; an offset is in minutes east of UTC.\<close>

datatype zone = ZoneLocal | ZoneUTC | ZoneOffset int

text \<open>Four digits, or a sign and six digits (an expanded year; minus zero is not one).\<close>

definition parse_year :: "string \<Rightarrow> (int \<times> string) option" where
  "parse_year s =
     (case s of
        [] \<Rightarrow> None
      | c # r \<Rightarrow>
          if c = CHR ''+'' \<or> c = CHR ''-'' then
            do {
              (y, r') \<leftarrow> take_digits 6 r;
              if c = CHR ''-'' \<and> y = 0 then None
              else Some (if c = CHR ''-'' then - int y else int y, r')
            }
          else
            do {
              (y, r') \<leftarrow> take_digits 4 s;
              Some (int y, r')
            })"

text \<open>\<open>-MM\<close> and then \<open>-DD\<close>, both optional; an absent field is 1.\<close>

definition parse_month_day :: "string \<Rightarrow> ((nat \<times> nat) \<times> string) option" where
  "parse_month_day s =
     (case expect_char CHR ''-'' s of
        None \<Rightarrow> Some ((1, 1), s)
      | Some r1 \<Rightarrow>
          do {
            (m, r2) \<leftarrow> take_digits 2 r1;
            if m < 1 \<or> 12 < m then None
            else
              (case expect_char CHR ''-'' r2 of
                 None \<Rightarrow> Some ((m, 1), r2)
               | Some r3 \<Rightarrow>
                   do {
                     (d, r4) \<leftarrow> take_digits 2 r3;
                     if d < 1 \<or> 31 < d then None else Some ((m, d), r4)
                   })
          })"

definition time_fields_ok :: "nat \<Rightarrow> nat \<Rightarrow> nat \<Rightarrow> nat \<Rightarrow> bool" where
  "time_fields_ok h mi sec ms =
     (h \<le> 23 \<and> mi \<le> 59 \<and> sec \<le> 59 \<or> h = 24 \<and> mi = 0 \<and> sec = 0 \<and> ms = 0)"

text \<open>\<open>HH:mm\<close>, \<open>HH:mm:ss\<close> or \<open>HH:mm:ss.sss\<close>, after the \<open>T\<close>.\<close>

definition parse_time :: "string \<Rightarrow> ((nat \<times> nat \<times> nat \<times> nat) \<times> string) option" where
  "parse_time s =
     do {
       (h, r1) \<leftarrow> take_digits 2 s;
       r2 \<leftarrow> expect_char CHR '':'' r1;
       (mi, r3) \<leftarrow> take_digits 2 r2;
       ((sec, ms), r7) \<leftarrow>
         (case expect_char CHR '':'' r3 of
            None \<Rightarrow> Some ((0, 0), r3)
          | Some r4 \<Rightarrow>
              do {
                (sec, r5) \<leftarrow> take_digits 2 r4;
                (case expect_char CHR ''.'' r5 of
                   None \<Rightarrow> Some ((sec, 0), r5)
                 | Some r6 \<Rightarrow>
                     do {
                       (ms, r7) \<leftarrow> take_digits 3 r6;
                       Some ((sec, ms), r7)
                     })
              });
       if time_fields_ok h mi sec ms then Some ((h, mi, sec, ms), r7) else None
     }"

text \<open>Nothing (local time), \<open>Z\<close>, or \<open>+HH:mm\<close> / \<open>-HH:mm\<close>, up to the end of the string.\<close>

definition parse_zone :: "string \<Rightarrow> zone option" where
  "parse_zone s =
     (case s of
        [] \<Rightarrow> Some ZoneLocal
      | c # r \<Rightarrow>
          if c = CHR ''Z'' then (if r = [] then Some ZoneUTC else None)
          else if c = CHR ''+'' \<or> c = CHR ''-'' then
            do {
              (hh, r1) \<leftarrow> take_digits 2 r;
              r2 \<leftarrow> expect_char CHR '':'' r1;
              (mm, r3) \<leftarrow> take_digits 2 r2;
              if r3 = [] \<and> hh \<le> 23 \<and> mm \<le> 59
              then Some (ZoneOffset ((if c = CHR ''-'' then - 1 else 1) * (int hh * 60 + int mm)))
              else None
            }
          else None)"

text \<open>
  A string of the format gives the time value of its fields read as UTC, and its zone. A
  date-only form is UTC; a date-time form with no designator is local time.
\<close>

definition parse_date_time :: "string \<Rightarrow> (int \<times> zone) option" where
  "parse_date_time s =
     do {
       (y, r) \<leftarrow> parse_year s;
       ((m, d), r1) \<leftarrow> parse_month_day r;
       if r1 = [] then Some (MakeDate (MakeDay y (int m - 1) (int d)) 0, ZoneUTC)
       else
         do {
           r2 \<leftarrow> expect_char CHR ''T'' r1;
           ((h, mi, sec, ms), r3) \<leftarrow> parse_time r2;
           z \<leftarrow> parse_zone r3;
           Some (MakeDate (MakeDay y (int m - 1) (int d))
                   (MakeTime (int h) (int mi) (int sec) (int ms)), z)
         }
     }"

text \<open>
  \<open>Date.parse\<close>, and so \<open>new Date(string)\<close>: the standard format first, the engine's own
  heuristics for every other string. The result is a time value or NaN.
\<close>

definition Date_parse :: "'a runtime_scheme \<Rightarrow> string \<Rightarrow> int option" where
  "Date_parse rt s =
     (case parse_date_time s of
        Some (t, z) \<Rightarrow>
          TimeClip (case z of
                      ZoneUTC \<Rightarrow> t
                    | ZoneOffset m \<Rightarrow> t - m * msPerMinute
                    | ZoneLocal \<Rightarrow> t - LocalTZA rt t)
      | None \<Rightarrow>
          (case Date_parse_fallback rt s of None \<Rightarrow> None | Some t \<Rightarrow> TimeClip t))"

subsection \<open>Date.prototype.toISOString\<close>

definition year_field :: "int \<Rightarrow> string" where
  "year_field y =
     (if 0 \<le> y \<and> y \<le> 9999 then pad_digits 4 (nat y)
      else (if y < 0 then CHR ''-'' else CHR ''+'') # pad_digits 6 (nat \<bar>y\<bar>))"

text \<open>An invalid date (NaN) makes \<open>toISOString\<close> throw a RangeError.\<close>

definition toISOString :: "int option \<Rightarrow> error + string" where
  "toISOString tv =
     (case tv of
        None \<Rightarrow> Inl RangeError
      | Some t \<Rightarrow>
          Inr (year_field (YearFromTime t) @ ''-'' @ pad_digits 2 (nat (MonthFromTime t + 1))
               @ ''-'' @ pad_digits 2 (nat (DateFromTime t))
               @ ''T'' @ pad_digits 2 (nat (HourFromTime t))
               @ '':'' @ pad_digits 2 (nat (MinFromTime t))
               @ '':'' @ pad_digits 2 (nat (SecFromTime t))
               @ ''.'' @ pad_digits 3 (nat (msFromTime t)) @ ''Z''))"

subsection \<open>JavaScript values\<close>

text \<open>
  The API key, the time arguments, the payloads and the response bodies are untyped
  values. Numbers are integral here: only the truthiness and the decimal rendering of a
  number are ever used.
\<close>

datatype jsval =
    JUndefined
  | JNull
  | JBool bool
  | JNum int
  | JStr string
  | JArr "jsval list"
  | JObj "(string \<times> jsval) list"

fun truthy :: "jsval \<Rightarrow> bool" where
  "truthy JUndefined = False"
| "truthy JNull = False"
| "truthy (JBool b) = b"
| "truthy (JNum n) = (n \<noteq> 0)"
| "truthy (JStr s) = (s \<noteq> [])"
| "truthy (JArr xs) = True"
| "truthy (JObj kvs) = True"

subsection \<open>convertToISO8601\<close>

text \<open>
  The regular expression \<open>(\d{4}-\d{2}-\d{2})-(\d{2}:\d{2}:\d{2})\<close> is a sequence of
  nineteen atoms, each a decimal digit or a literal character.
\<close>

datatype atom = Digit | Lit char

fun atom_ok :: "atom \<Rightarrow> char \<Rightarrow> bool" where
  "atom_ok Digit c = is_digit c"
| "atom_ok (Lit x) c = (c = x)"

fun match_atoms :: "atom list \<Rightarrow> string \<Rightarrow> bool" where
  "match_atoms [] s = True"
| "match_atoms (a # as) [] = False"
| "match_atoms (a # as) (c # cs) = (atom_ok a c \<and> match_atoms as cs)"

definition date_time_pattern :: "atom list" where
  "date_time_pattern =
     [Digit, Digit, Digit, Digit, Lit CHR ''-'', Digit, Digit, Lit CHR ''-'', Digit, Digit,
      Lit CHR ''-'',
      Digit, Digit, Lit CHR '':'', Digit, Digit, Lit CHR '':'', Digit, Digit]"

text \<open>
  \<open>dateString.replace(pattern, '$1T$2')\<close>: the leftmost match, if there is one, has the
  hyphen between its two groups (its eleventh character) replaced by \<open>T\<close>; a string with
  no match is returned as it is.
\<close>

fun replace_separator :: "string \<Rightarrow> string" where
  "replace_separator [] = []"
| "replace_separator (c # cs) =
     (if match_atoms date_time_pattern (c # cs)
      then take 10 (c # cs) @ ''T'' @ drop 11 (c # cs)
      else c # replace_separator cs)"

text \<open>
  The argument is any value. Only a string has a method \<open>replace\<close>: reading the property
  from \<open>undefined\<close> or \<open>null\<close> throws a TypeError, and on a number, a boolean, an array
  or an object of data the property is not a function, so that the call throws a
  TypeError.
\<close>

definition convertToISO8601 :: "'a runtime_scheme \<Rightarrow> jsval \<Rightarrow> error + string" where
  "convertToISO8601 rt dateString =
     (case dateString of
        JStr s \<Rightarrow>
          (let isoString = replace_separator s;
               date = Date_parse rt isoString
           in toISOString date)
      | _ \<Rightarrow> Inl TypeError)"

subsection \<open>Arguments and properties\<close>

text \<open>
  An argument that is documented as a string is a string, or is omitted (\<open>undefined\<close>,
  here \<open>None\<close>): its value, its truthiness, and its text in a template literal. The
  time arguments, which the documentation types as strings in four methods and as numbers
  in \<open>getTrades\<close>, are values of any kind.
\<close>

definition arg_value :: "string option \<Rightarrow> jsval" where
  "arg_value a = (case a of None \<Rightarrow> JUndefined | Some s \<Rightarrow> JStr s)"

definition present :: "string option \<Rightarrow> bool" where
  "present a = truthy (arg_value a)"

definition template :: "string option \<Rightarrow> string" where
  "template a = (case a of None \<Rightarrow> ''undefined'' | Some s \<Rightarrow> s)"

text \<open>
  \<open>data.apikey\<close>: reading a property of \<open>undefined\<close> or \<open>null\<close> throws a TypeError; an
  object gives the value stored under the key, and every other value (and an object
  without the key) gives \<open>undefined\<close>.
\<close>

definition get_apikey :: "jsval \<Rightarrow> error + jsval" where
  "get_apikey d =
     (case d of
        JUndefined \<Rightarrow> Inl TypeError
      | JNull \<Rightarrow> Inl TypeError
      | JObj kvs \<Rightarrow> Inr (case map_of kvs ''apikey'' of None \<Rightarrow> JUndefined | Some v \<Rightarrow> v)
      | _ \<Rightarrow> Inr JUndefined)"

text \<open>Assignment to a property of an object: the entry is replaced, or added at the end.\<close>

fun set_prop :: "string \<Rightarrow> jsval \<Rightarrow> (string \<times> jsval) list \<Rightarrow> (string \<times> jsval) list" where
  "set_prop k v [] = [(k, v)]"
| "set_prop k v ((k', v') # r) = (if k' = k then (k, v) # r else (k', v') # set_prop k v r)"

subsection \<open>JSON.stringify\<close>

definition hex_digit :: "nat \<Rightarrow> char" where
  "hex_digit n = (if n < 10 then char_of (48 + n) else char_of (87 + n))"

definition JSON_escape :: "char \<Rightarrow> string" where
  "JSON_escape c =
     (let n = (of_char c :: nat) in
      if n = 8 then [CHR 0x5C, CHR ''b'']
      else if n = 9 then [CHR 0x5C, CHR ''t'']
      else if n = 10 then [CHR 0x5C, CHR ''n'']
      else if n = 12 then [CHR 0x5C, CHR ''f'']
      else if n = 13 then [CHR 0x5C, CHR ''r'']
      else if n = 34 then [CHR 0x5C, CHR 0x22]
      else if n = 92 then [CHR 0x5C, CHR 0x5C]
      else if n < 32 then
        [CHR 0x5C, CHR ''u'', CHR ''0'', CHR ''0'', hex_digit (n div 16), hex_digit (n mod 16)]
      else [c])"

definition JSON_quote :: "string \<Rightarrow> string" where
  "JSON_quote s = CHR 0x22 # concat (map JSON_escape s) @ [CHR 0x22]"

fun join :: "string \<Rightarrow> string list \<Rightarrow> string" where
  "join sep [] = []"
| "join sep [x] = x"
| "join sep (x # y # r) = x @ sep @ join sep (y # r)"

text \<open>
  The result is \<open>undefined\<close> (\<open>None\<close>) for \<open>undefined\<close>; in an array \<open>undefined\<close> is written
  \<open>null\<close>, and a property of an object whose value is \<open>undefined\<close> is left out.
\<close>

fun JSON_stringify :: "jsval \<Rightarrow> string option" where
  "JSON_stringify JUndefined = None"
| "JSON_stringify JNull = Some ''null''"
| "JSON_stringify (JBool b) = Some (if b then ''true'' else ''false'')"
| "JSON_stringify (JNum n) = Some (Number_toString n)"
| "JSON_stringify (JStr s) = Some (JSON_quote s)"
| "JSON_stringify (JArr xs) =
     Some (''['' @ join '','' (map (\<lambda>x. case JSON_stringify x of
                                          None \<Rightarrow> ''null''
                                        | Some t \<Rightarrow> t) xs)
           @ '']'')"
| "JSON_stringify (JObj kvs) =
     Some (''{'' @ join '','' (concat (map (\<lambda>kv. case JSON_stringify (snd kv) of
                                                  None \<Rightarrow> []
                                                | Some t \<Rightarrow> [JSON_quote (fst kv) @ '':'' @ t]) kvs))
           @ ''}'')"

subsection \<open>Requests, the environment and the world\<close>

datatype verb = GET | POST | DELETE

text \<open>The \<open>config\<close> argument of a transport call: an object with a \<open>headers\<close> object.\<close>

record axios_config =
  headers :: "(string \<times> jsval) list"

text \<open>
  One call of \<open>axios.get\<close>, \<open>axios.post\<close> or \<open>axios.delete\<close>: the URL, the payload (of a
  post) and the config, when the call passes one.
\<close>

record request =
  req_verb :: verb
  req_url :: string
  req_data :: "jsval option"
  req_config :: "axios_config option"

text \<open>
  The libraries: \<open>Wallet\<close> is \<open>new ethers.Wallet(privateKey)\<close>, which throws on a key that
  is not one; \<open>signMessage\<close> is the wallet's method, applied to what \<open>JSON.stringify\<close>
  returned; \<open>axios\<close> gives the outcome of a request after the requests sent before it:
  the \<open>data\<close> of the response, or the error the promise is rejected with.
\<close>

record 'w env = runtime +
  Wallet :: "string \<Rightarrow> error + 'w"
  wallet_address :: "'w \<Rightarrow> string"
  signMessage :: "'w \<Rightarrow> string option \<Rightarrow> error + string"
  axios :: "request list \<Rightarrow> request \<Rightarrow> error + jsval"

record world =
  sent :: "request list"
  clock_reads :: nat

definition axios_request :: "'w env \<Rightarrow> request \<Rightarrow> world \<Rightarrow> (error + jsval) \<times> world" where
  "axios_request env r w = (axios env (sent w) r, w\<lparr>sent := sent w @ [r]\<rparr>)"

subsection \<open>The client\<close>

record 'w cax =
  privateKey :: string
  wallet :: 'w
  address :: string
  baseUrl :: string
  apiKey :: jsval
  config :: axios_config

type_synonym 'w outcome = "(error + jsval) \<times> 'w cax \<times> world"

definition Cax_new :: "'w env \<Rightarrow> string \<Rightarrow> jsval \<Rightarrow> error + 'w cax" where
  "Cax_new env pk key =
     (case Wallet env pk of
        Inl e \<Rightarrow> Inl e
      | Inr wl \<Rightarrow>
          Inr \<lparr>privateKey = pk, wallet = wl, address = wallet_address env wl,
               baseUrl = ''https://cax.piccadilly.autonity.org/api'',
               apiKey = key,
               config = \<lparr>headers = [(''API-Key'', key)]\<rparr>\<rparr>)"

definition updateApiKey :: "'w cax \<Rightarrow> jsval \<Rightarrow> 'w cax" where
  "updateApiKey c key =
     c\<lparr>apiKey := key,
       config := (config c)\<lparr>headers := set_prop ''API-Key'' key (headers (config c))\<rparr>\<rparr>"

definition createApiKey :: "'w env \<Rightarrow> string \<Rightarrow> jsval \<Rightarrow> 'w cax \<Rightarrow> world \<Rightarrow> 'w outcome" where
  "createApiKey env sig payload c w =
     (let cfg = \<lparr>headers = [(''api-sig'', JStr sig)]\<rparr> in
      case axios_request env
             \<lparr>req_verb = POST, req_url = baseUrl c @ ''/apikeys'',
              req_data = Some payload, req_config = Some cfg\<rparr> w of
        (Inl e, w1) \<Rightarrow> (Inl e, c, w1)
      | (Inr d, w1) \<Rightarrow>
          (case get_apikey d of
             Inl e \<Rightarrow> (Inl e, c, w1)
           | Inr key \<Rightarrow> (Inr key, updateApiKey c key, w1)))"

definition generateApiKey :: "'w env \<Rightarrow> 'w cax \<Rightarrow> world \<Rightarrow> 'w outcome" where
  "generateApiKey env c w =
     (let message = JObj [(''nonce'', JStr (Number_toString (Date_now env (clock_reads w))))];
          w1 = w\<lparr>clock_reads := Suc (clock_reads w)\<rparr>
      in case signMessage env (wallet c) (JSON_stringify message) of
           Inl e \<Rightarrow> (Inl e, c, w1)
         | Inr sig \<Rightarrow> createApiKey env sig message c w1)"

text \<open>
  The first statement of every method of a private endpoint:
  \<open>if (!this.apiKey) { await this.generateApiKey() }\<close>.
\<close>

definition ensureApiKey :: "'w env \<Rightarrow> 'w cax \<Rightarrow> world \<Rightarrow> (error + unit) \<times> 'w cax \<times> world" where
  "ensureApiKey env c w =
     (if \<not> truthy (apiKey c) then
        (case generateApiKey env c w of
           (Inl e, c1, w1) \<Rightarrow> (Inl e, c1, w1)
         | (Inr key, c1, w1) \<Rightarrow> (Inr (), c1, w1))
      else (Inr (), c, w))"

text \<open>
  The shape of every method of a private endpoint: the key is provided if there is none,
  the URL is built from \<open>this.baseUrl\<close> (the date conversion may throw), the request is
  made with \<open>this.config\<close>, and \<open>res.data\<close> is returned.
\<close>

definition authenticated_request ::
  "'w env \<Rightarrow> verb \<Rightarrow> (string \<Rightarrow> error + string) \<Rightarrow> jsval option \<Rightarrow> 'w cax \<Rightarrow> world \<Rightarrow> 'w outcome"
where
  "authenticated_request env v mk_url payload c w =
     (case ensureApiKey env c w of
        (Inl e, c1, w1) \<Rightarrow> (Inl e, c1, w1)
      | (Inr u, c1, w1) \<Rightarrow>
          (case mk_url (baseUrl c1) of
             Inl e \<Rightarrow> (Inl e, c1, w1)
           | Inr url \<Rightarrow>
               (case axios_request env
                       \<lparr>req_verb = v, req_url = url, req_data = payload,
                        req_config = Some (config c1)\<rparr> w1 of
                  (r, w2) \<Rightarrow> (r, c1, w2))))"

text \<open>A method of a public endpoint: \<open>axios.get(url)\<close>, with no config.\<close>

definition public_request :: "'w env \<Rightarrow> string \<Rightarrow> 'w cax \<Rightarrow> world \<Rightarrow> 'w outcome" where
  "public_request env url c w =
     (case axios_request env
             \<lparr>req_verb = GET, req_url = url, req_data = None, req_config = None\<rparr> w of
        (r, w1) \<Rightarrow> (r, c, w1))"

text \<open>
  The part \<open>end=${this.convertToISO8601(endTime)}&start=${this.convertToISO8601(startTime)}\<close>
  of the filtered URLs; the end time is converted first.
\<close>

definition time_range :: "'a runtime_scheme \<Rightarrow> jsval \<Rightarrow> jsval \<Rightarrow> error + string" where
  "time_range rt endTime startTime =
     (case convertToISO8601 rt endTime of
        Inl e \<Rightarrow> Inl e
      | Inr en \<Rightarrow>
          (case convertToISO8601 rt startTime of
             Inl e \<Rightarrow> Inl e
           | Inr st \<Rightarrow> Inr (''end='' @ en @ ''&start='' @ st)))"

definition getBalances :: "'w env \<Rightarrow> string option \<Rightarrow> 'w cax \<Rightarrow> world \<Rightarrow> 'w outcome" where
  "getBalances env symbol =
     authenticated_request env GET
       (\<lambda>base. Inr (if present symbol then base @ ''/balances/'' @ template symbol
                     else base @ ''/balances'')) None"

definition getDeposits ::
  "'w env \<Rightarrow> jsval \<Rightarrow> jsval \<Rightarrow> string option \<Rightarrow> 'w cax \<Rightarrow> world \<Rightarrow> 'w outcome"
where
  "getDeposits env startTime endTime symbol =
     authenticated_request env GET
       (\<lambda>base. if truthy startTime \<and> truthy endTime \<and> present symbol then
                  (case time_range env endTime startTime of
                     Inl e \<Rightarrow> Inl e
                   | Inr q \<Rightarrow> Inr (base @ ''/deposits/?'' @ q @ ''&symbol='' @ template symbol))
                else Inr (base @ ''/deposits'')) None"

definition getDepositInfo :: "'w env \<Rightarrow> string option \<Rightarrow> 'w cax \<Rightarrow> world \<Rightarrow> 'w outcome" where
  "getDepositInfo env txId =
     authenticated_request env GET (\<lambda>base. Inr (base @ ''/deposits/'' @ template txId)) None"

definition getRefunds ::
  "'w env \<Rightarrow> jsval \<Rightarrow> jsval \<Rightarrow> string option \<Rightarrow> 'w cax \<Rightarrow> world \<Rightarrow> 'w outcome"
where
  "getRefunds env startTime endTime symbol =
     authenticated_request env GET
       (\<lambda>base. if truthy startTime \<and> truthy endTime \<and> present symbol then
                  (case time_range env endTime startTime of
                     Inl e \<Rightarrow> Inl e
                   | Inr q \<Rightarrow> Inr (base @ ''/refunds/?'' @ q @ ''&symbol='' @ template symbol))
                else Inr (base @ ''/refunds'')) None"

definition getRefundInfo :: "'w env \<Rightarrow> string option \<Rightarrow> 'w cax \<Rightarrow> world \<Rightarrow> 'w outcome" where
  "getRefundInfo env txId =
     authenticated_request env GET (\<lambda>base. Inr (base @ ''/refunds/'' @ template txId)) None"

definition getWithdraws ::
  "'w env \<Rightarrow> string option \<Rightarrow> jsval \<Rightarrow> jsval \<Rightarrow> string option \<Rightarrow>
     'w cax \<Rightarrow> world \<Rightarrow> 'w outcome"
where
  "getWithdraws env status startTime endTime symbol =
     authenticated_request env GET
       (\<lambda>base. if present status \<and> truthy startTime \<and> truthy endTime \<and> present symbol then
                  (case time_range env endTime startTime of
                     Inl e \<Rightarrow> Inl e
                   | Inr q \<Rightarrow> Inr (base @ ''/withdraws/?status='' @ template status @ ''&'' @ q
                                    @ ''&symbol='' @ template symbol))
                else Inr (base @ ''/withdraws'')) None"

definition requestWithdraw :: "'w env \<Rightarrow> jsval \<Rightarrow> 'w cax \<Rightarrow> world \<Rightarrow> 'w outcome" where
  "requestWithdraw env payload =
     authenticated_request env POST (\<lambda>base. Inr (base @ ''/withdraws'')) (Some payload)"

definition getWithdrawInfo :: "'w env \<Rightarrow> string option \<Rightarrow> 'w cax \<Rightarrow> world \<Rightarrow> 'w outcome" where
  "getWithdrawInfo env txId =
     authenticated_request env GET (\<lambda>base. Inr (base @ ''/withdraws/'' @ template txId)) None"

text \<open>\<open>getOrderbooks\<close> passes \<open>this.config\<close> to the transport, and does not provide a key.\<close>

definition getOrderbooks :: "'w env \<Rightarrow> 'w cax \<Rightarrow> world \<Rightarrow> 'w outcome" where
  "getOrderbooks env c w =
     (case axios_request env
             \<lparr>req_verb = GET, req_url = baseUrl c @ ''/orderbooks'', req_data = None,
              req_config = Some (config c)\<rparr> w of
        (r, w1) \<Rightarrow> (r, c, w1))"

definition getOrderbookInfo :: "'w env \<Rightarrow> string option \<Rightarrow> 'w cax \<Rightarrow> world \<Rightarrow> 'w outcome" where
  "getOrderbookInfo env pair c =
     public_request env (baseUrl c @ ''/orderbooks/'' @ template pair) c"

definition getOrderbookDepth :: "'w env \<Rightarrow> string option \<Rightarrow> 'w cax \<Rightarrow> world \<Rightarrow> 'w outcome" where
  "getOrderbookDepth env pair c =
     public_request env (baseUrl c @ ''/orderbooks/'' @ template pair @ ''/depth'') c"

definition getOrderbookQuote :: "'w env \<Rightarrow> string option \<Rightarrow> 'w cax \<Rightarrow> world \<Rightarrow> 'w outcome" where
  "getOrderbookQuote env pair c =
     public_request env (baseUrl c @ ''/orderbooks/'' @ template pair @ ''/quote'') c"

definition getTradeHistory ::
  "'w env \<Rightarrow> string option \<Rightarrow> string option \<Rightarrow> 'w cax \<Rightarrow> world \<Rightarrow> 'w outcome"
where
  "getTradeHistory env pair date c =
     public_request env
       (if present date
        then baseUrl c @ ''/orderbooks/'' @ template pair @ ''/trades/?data='' @ template date
        else baseUrl c @ ''/orderbooks/'' @ template pair @ ''/trades'') c"

definition getExchangeStatus :: "'w env \<Rightarrow> 'w cax \<Rightarrow> world \<Rightarrow> 'w outcome" where
  "getExchangeStatus env c = public_request env (baseUrl c @ ''/status'') c"

definition getSymbols :: "'w env \<Rightarrow> 'w cax \<Rightarrow> world \<Rightarrow> 'w outcome" where
  "getSymbols env c = public_request env (baseUrl c @ ''/symbols'') c"

definition getSymbolsInfo :: "'w env \<Rightarrow> string option \<Rightarrow> 'w cax \<Rightarrow> world \<Rightarrow> 'w outcome" where
  "getSymbolsInfo env name c =
     public_request env (baseUrl c @ ''/symbols/'' @ template name) c"

definition getOrders ::
  "'w env \<Rightarrow> string option \<Rightarrow> jsval \<Rightarrow> jsval \<Rightarrow> string option \<Rightarrow>
     'w cax \<Rightarrow> world \<Rightarrow> 'w outcome"
where
  "getOrders env status startTime endTime pair =
     authenticated_request env GET
       (\<lambda>base. if present status \<and> truthy startTime \<and> truthy endTime \<and> present pair then
                  (case time_range env endTime startTime of
                     Inl e \<Rightarrow> Inl e
                   | Inr q \<Rightarrow> Inr (base @ ''/orders/?status='' @ template status @ ''&'' @ q
                                    @ ''&symbol='' @ template pair))
                else Inr (base @ ''/orders'')) None"

definition submitLimitOrder :: "'w env \<Rightarrow> jsval \<Rightarrow> 'w cax \<Rightarrow> world \<Rightarrow> 'w outcome" where
  "submitLimitOrder env payload =
     authenticated_request env POST (\<lambda>base. Inr (base @ ''/orders/'')) (Some payload)"

definition getOrderInfo :: "'w env \<Rightarrow> string option \<Rightarrow> 'w cax \<Rightarrow> world \<Rightarrow> 'w outcome" where
  "getOrderInfo env orderId =
     authenticated_request env GET (\<lambda>base. Inr (base @ ''/orders/'' @ template orderId)) None"

definition cancelOrder :: "'w env \<Rightarrow> string option \<Rightarrow> 'w cax \<Rightarrow> world \<Rightarrow> 'w outcome" where
  "cancelOrder env orderId =
     authenticated_request env DELETE (\<lambda>base. Inr (base @ ''/orders/'' @ template orderId)) None"

text \<open>With a parameter missing, \<open>getTrades\<close> asks for \<open>/orders\<close>, as the source does.\<close>

definition getTrades ::
  "'w env \<Rightarrow> jsval \<Rightarrow> jsval \<Rightarrow> string option \<Rightarrow> string option \<Rightarrow>
     'w cax \<Rightarrow> world \<Rightarrow> 'w outcome"
where
  "getTrades env startTime endTime pair orderId =
     authenticated_request env GET
       (\<lambda>base. if truthy startTime \<and> truthy endTime \<and> present pair \<and> present orderId then
                  (case time_range env endTime startTime of
                     Inl e \<Rightarrow> Inl e
                   | Inr q \<Rightarrow> Inr (base @ ''/trades/?'' @ q @ ''&pair='' @ template pair
                                    @ ''&orderId='' @ template orderId))
                else Inr (base @ ''/orders'')) None"

definition getTradeInfo :: "'w env \<Rightarrow> string option \<Rightarrow> 'w cax \<Rightarrow> world \<Rightarrow> 'w outcome" where
  "getTradeInfo env tradeId =
     authenticated_request env GET (\<lambda>base. Inr (base @ ''/trades/'' @ template tradeId)) None"

subsection \<open>Calls of the public methods\<close>

text \<open>
  One constructor for each method of the class, with its arguments, so that a property of
  every operation is a property of \<open>invoke\<close>, and a property of every later call is one of
  \<open>run\<close>.
\<close>

datatype call =
    ConvertToISO8601 jsval
  | UpdateApiKey jsval
  | GenerateApiKey
  | CreateApiKey string jsval
  | GetBalances "string option"
  | GetDeposits jsval jsval "string option"
  | GetDepositInfo "string option"
  | GetRefunds jsval jsval "string option"
  | GetRefundInfo "string option"
  | GetWithdraws "string option" jsval jsval "string option"
  | RequestWithdraw jsval
  | GetWithdrawInfo "string option"
  | GetOrderbooks
  | GetOrderbookInfo "string option"
  | GetOrderbookDepth "string option"
  | GetOrderbookQuote "string option"
  | GetTradeHistory "string option" "string option"
  | GetExchangeStatus
  | GetSymbols
  | GetSymbolsInfo "string option"
  | GetOrders "string option" jsval jsval "string option"
  | SubmitLimitOrder jsval
  | GetOrderInfo "string option"
  | CancelOrder "string option"
  | GetTrades jsval jsval "string option" "string option"
  | GetTradeInfo "string option"

fun invoke :: "'w env \<Rightarrow> call \<Rightarrow> 'w cax \<Rightarrow> world \<Rightarrow> 'w outcome" where
  "invoke env (ConvertToISO8601 d) c w =
     ((case convertToISO8601 env d of Inl e \<Rightarrow> Inl e | Inr s \<Rightarrow> Inr (JStr s)), c, w)"
| "invoke env (UpdateApiKey key) c w = (Inr JUndefined, updateApiKey c key, w)"
| "invoke env GenerateApiKey c w = generateApiKey env c w"
| "invoke env (CreateApiKey sig payload) c w = createApiKey env sig payload c w"
| "invoke env (GetBalances symbol) c w = getBalances env symbol c w"
| "invoke env (GetDeposits startTime endTime symbol) c w =
     getDeposits env startTime endTime symbol c w"
| "invoke env (GetDepositInfo txId) c w = getDepositInfo env txId c w"
| "invoke env (GetRefunds startTime endTime symbol) c w =
     getRefunds env startTime endTime symbol c w"
| "invoke env (GetRefundInfo txId) c w = getRefundInfo env txId c w"
| "invoke env (GetWithdraws status startTime endTime symbol) c w =
     getWithdraws env status startTime endTime symbol c w"
| "invoke env (RequestWithdraw payload) c w = requestWithdraw env payload c w"
| "invoke env (GetWithdrawInfo txId) c w = getWithdrawInfo env txId c w"
| "invoke env GetOrderbooks c w = getOrderbooks env c w"
| "invoke env (GetOrderbookInfo pair) c w = getOrderbookInfo env pair c w"
| "invoke env (GetOrderbookDepth pair) c w = getOrderbookDepth env pair c w"
| "invoke env (GetOrderbookQuote pair) c w = getOrderbookQuote env pair c w"
| "invoke env (GetTradeHistory pair date) c w = getTradeHistory env pair date c w"
| "invoke env GetExchangeStatus c w = getExchangeStatus env c w"
| "invoke env GetSymbols c w = getSymbols env c w"
| "invoke env (GetSymbolsInfo name) c w = getSymbolsInfo env name c w"
| "invoke env (GetOrders status startTime endTime pair) c w =
     getOrders env status startTime endTime pair c w"
| "invoke env (SubmitLimitOrder payload) c w = submitLimitOrder env payload c w"
| "invoke env (GetOrderInfo orderId) c w = getOrderInfo env orderId c w"
| "invoke env (CancelOrder orderId) c w = cancelOrder env orderId c w"
| "invoke env (GetTrades startTime endTime pair orderId) c w =
     getTrades env startTime endTime pair orderId c w"
| "invoke env (GetTradeInfo tradeId) c w = getTradeInfo env tradeId c w"

text \<open>A sequence of calls, each awaited before the next; a call that fails does not stop the caller.\<close>

fun run :: "'w env \<Rightarrow> call list \<Rightarrow> 'w cax \<Rightarrow> world \<Rightarrow> 'w cax \<times> world" where
  "run env [] c w = (c, w)"
| "run env (k # ks) c w = (case invoke env k c w of (r, c1, w1) \<Rightarrow> run env ks c1 w1)"

text \<open>The fourteen methods of private endpoints, which start by providing a key.\<close>

fun authenticated_call :: "call \<Rightarrow> bool" where
  "authenticated_call (GetBalances symbol) = True"
| "authenticated_call (GetDeposits startTime endTime symbol) = True"
| "authenticated_call (GetDepositInfo txId) = True"
| "authenticated_call (GetRefunds startTime endTime symbol) = True"
| "authenticated_call (GetRefundInfo txId) = True"
| "authenticated_call (GetWithdraws status startTime endTime symbol) = True"
| "authenticated_call (RequestWithdraw payload) = True"
| "authenticated_call (GetWithdrawInfo txId) = True"
| "authenticated_call (GetOrders status startTime endTime pair) = True"
| "authenticated_call (SubmitLimitOrder payload) = True"
| "authenticated_call (GetOrderInfo orderId) = True"
| "authenticated_call (CancelOrder orderId) = True"
| "authenticated_call (GetTrades startTime endTime pair orderId) = True"
| "authenticated_call (GetTradeInfo tradeId) = True"
| "authenticated_call k = False"

text \<open>The calls that replace the credential explicitly.\<close>

fun replaces_credential :: "call \<Rightarrow> bool" where
  "replaces_credential (UpdateApiKey key) = True"
| "replaces_credential GenerateApiKey = True"
| "replaces_credential (CreateApiKey sig payload) = True"
| "replaces_credential k = False"

subsection \<open>What the properties speak about\<close>

text \<open>The requests a step has handed to the transport: those of the later world after those of the earlier.\<close>

definition new_requests :: "world \<Rightarrow> world \<Rightarrow> request list" where
  "new_requests w w' = drop (length (sent w)) (sent w')"

text \<open>A key-issuance request of a client: a POST to \<open>/apikeys\<close> under its base URL.\<close>

definition key_issuance :: "'w cax \<Rightarrow> request \<Rightarrow> bool" where
  "key_issuance c r = (req_verb r = POST \<and> req_url r = baseUrl c @ ''/apikeys'')"

text \<open>The value of a header of a request: \<open>None\<close> when the request has no config or no such header.\<close>

definition header_of :: "string \<Rightarrow> request \<Rightarrow> jsval option" where
  "header_of h r = (case req_config r of None \<Rightarrow> None | Some cfg \<Rightarrow> map_of (headers cfg) h)"

text \<open>The value of the \<open>API-Key\<close> header that the client keeps in \<open>this.config\<close>.\<close>

definition API_Key_header :: "'w cax \<Rightarrow> jsval option" where
  "API_Key_header c = map_of (headers (config c)) ''API-Key''"

text \<open>
  The strings of the pattern \<open>YYYY-MM-DD-HH:MM:SS\<close> are the renderings of six numbers in
  fixed-width decimal fields; \<open>date_time_string\<close> writes them with the given separator
  between the date and the time. The length of a month follows the Gregorian calendar.
\<close>

definition date_time_string ::
  "char \<Rightarrow> nat \<Rightarrow> nat \<Rightarrow> nat \<Rightarrow> nat \<Rightarrow> nat \<Rightarrow> nat \<Rightarrow> string"
where
  "date_time_string sep Y M D h mi s =
     pad_digits 4 Y @ ''-'' @ pad_digits 2 M @ ''-'' @ pad_digits 2 D @ [sep]
       @ pad_digits 2 h @ '':'' @ pad_digits 2 mi @ '':'' @ pad_digits 2 s"

definition DaysInMonth :: "int \<Rightarrow> int \<Rightarrow> int" where
  "DaysInMonth y m =
     (if m = 2 then (if DaysInYear y = 366 then 29 else 28)
      else if m = 4 \<or> m = 6 \<or> m = 9 \<or> m = 11 then 30 else 31)"

text \<open>The time value of the six fields, read as a time of the UTC calendar.\<close>

definition local_time_value :: "nat \<Rightarrow> nat \<Rightarrow> nat \<Rightarrow> nat \<Rightarrow> nat \<Rightarrow> nat \<Rightarrow> int" where
  "local_time_value Y M D h mi s =
     MakeDate (MakeDay (int Y) (int M - 1) (int D)) (MakeTime (int h) (int mi) (int s) 0)"

text \<open>
  The time value of six fields of the UTC calendar, in any year, and the timestamp that
  writes them: the year in four digits from 0000 to 9999, and with a sign and six digits
  otherwise.
\<close>

definition UTC_time_value :: "int \<Rightarrow> nat \<Rightarrow> nat \<Rightarrow> nat \<Rightarrow> nat \<Rightarrow> nat \<Rightarrow> int" where
  "UTC_time_value Y M D h mi s =
     MakeDate (MakeDay Y (int M - 1) (int D)) (MakeTime (int h) (int mi) (int s) 0)"

definition timestamp :: "int \<Rightarrow> nat \<Rightarrow> nat \<Rightarrow> nat \<Rightarrow> nat \<Rightarrow> nat \<Rightarrow> string" where
  "timestamp Y M D h mi s =
     year_field Y @ ''-'' @ pad_digits 2 M @ ''-'' @ pad_digits 2 D @ ''T''
       @ pad_digits 2 h @ '':'' @ pad_digits 2 mi @ '':'' @ pad_digits 2 s @ ''.000Z''"

text \<open>The five methods whose URL carries a time range, where the date conversion runs.\<close>

fun takes_time_range :: "call \<Rightarrow> bool" where
  "takes_time_range (GetDeposits startTime endTime symbol) = True"
| "takes_time_range (GetRefunds startTime endTime symbol) = True"
| "takes_time_range (GetWithdraws status startTime endTime symbol) = True"
| "takes_time_range (GetOrders status startTime endTime pair) = True"
| "takes_time_range (GetTrades startTime endTime pair orderId) = True"
| "takes_time_range k = False"

text \<open>
  The payload of key issuance for a clock reading, its JSON text, and the request that
  carries it with a signature.
\<close>

definition nonce_payload :: "int \<Rightarrow> jsval" where
  "nonce_payload now = JObj [(''nonce'', JStr (Number_toString now))]"

definition nonce_text :: "int \<Rightarrow> string" where
  "nonce_text now =
     [CHR ''{'', CHR 0x22] @ ''nonce'' @ [CHR 0x22, CHR '':'', CHR 0x22]
       @ Number_toString now @ [CHR 0x22, CHR ''}'']"

definition issuance_request :: "'w cax \<Rightarrow> int \<Rightarrow> string \<Rightarrow> request" where
  "issuance_request c now sig =
     \<lparr>req_verb = POST, req_url = baseUrl c @ ''/apikeys'',
      req_data = Some (nonce_payload now),
      req_config = Some \<lparr>headers = [(''api-sig'', JStr sig)]\<rparr>\<rparr>"

text \<open>A request of a method of a private endpoint: it carries the config of the client.\<close>

definition own_request :: "verb \<Rightarrow> string \<Rightarrow> jsval option \<Rightarrow> 'w cax \<Rightarrow> request" where
  "own_request v url payload c =
     \<lparr>req_verb = v, req_url = url, req_data = payload, req_config = Some (config c)\<rparr>"

subsection \<open>Two environments for concrete runs\<close>

text \<open>
  A host whose local time is UTC, with no date formats of its own, a wallet that signs by
  prefixing, and a server that answers the key-issuance request with the key \<open>K1\<close>; and
  the same host one hour east of UTC.
\<close>

definition demo_env :: "string env" where
  "demo_env =
     \<lparr>LocalTZA = (\<lambda>t. 0), Date_parse_fallback = (\<lambda>s. None), Date_now = (\<lambda>n. 1700000000000),
      Wallet = (\<lambda>pk. Inr pk), wallet_address = (\<lambda>wl. ''0x'' @ wl),
      signMessage = (\<lambda>wl m. case m of None \<Rightarrow> Inl (EthersError ''invalid message'')
                               | Some t \<Rightarrow> Inr (''signed:'' @ t)),
      axios = (\<lambda>log r. if req_verb r = POST \<and> req_url r = ''https://cax.piccadilly.autonity.org/api/apikeys''
                         then Inr (JObj [(''apikey'', JStr ''K1'')])
                         else Inr (JObj [(''ok'', JBool True)]))\<rparr>"

definition demo_env_east :: "string env" where
  "demo_env_east = demo_env\<lparr>LocalTZA := (\<lambda>t. 3600000)\<rparr>"

text \<open>The same host with a server that answers every request with an empty object.\<close>

definition demo_env_no_key :: "string env" where
  "demo_env_no_key = demo_env\<lparr>axios := (\<lambda>log r. Inr (JObj []))\<rparr>"

definition demo_client :: "jsval \<Rightarrow> string cax" where
  "demo_client key =
     \<lparr>privateKey = ''pk'', wallet = ''pk'', address = ''0xpk'',
      baseUrl = ''https://cax.piccadilly.autonity.org/api'', apiKey = key,
      config = \<lparr>headers = [(''API-Key'', key)]\<rparr>\<rparr>"

definition demo_world :: world where
  "demo_world = \<lparr>sent = [], clock_reads = 0\<rparr>"

section \<open>The calendar of the engine\<close>

lemma DayFromYear_1970: "DayFromYear 1970 = 0"
  by (simp add: DayFromYear_def)

lemma DaysInYear_bounds: "365 \<le> DaysInYear y \<and> DaysInYear y \<le> 366"
  by (simp add: DaysInYear_def)

lemma DayFromYear_add_bounds:
  "0 \<le> k \<Longrightarrow> DayFromYear y + 365 * k \<le> DayFromYear (y + k) \<and>
     DayFromYear (y + k) \<le> DayFromYear y + 366 * k"
proof (induction k rule: int_ge_induct)
  case base
  show ?case by simp
next
  case (step i)
  have "DayFromYear (y + (i + 1)) = DayFromYear (y + i) + DaysInYear (y + i)"
    using DayFromYear_succ [of "y + i"] by (simp add: add.assoc)
  with step.IH DaysInYear_bounds [of "y + i"] show ?case by auto
qed

lemma DayFromYear_mono: "y \<le> y' \<Longrightarrow> DayFromYear y \<le> DayFromYear y'"
  using DayFromYear_add_bounds [of "y' - y" y] by simp

lemma year_search_start: "DayFromYear (1970 + (if 0 \<le> d then d div 366 else d div 365)) \<le> d"
proof (cases "0 \<le> d")
  case True
  then have q: "0 \<le> d div 366" by simp
  have "DayFromYear (1970 + d div 366) \<le> 366 * (d div 366)"
    using DayFromYear_add_bounds [OF q, of 1970] by (simp add: DayFromYear_1970)
  moreover have "366 * (d div 366) \<le> d" by simp
  ultimately show ?thesis using True by simp
next
  case False
  then have q: "0 \<le> - (d div 365)" by simp
  have "DayFromYear (1970 + d div 365) + 365 * (- (d div 365)) \<le> DayFromYear 1970"
    using DayFromYear_add_bounds [OF q, of "1970 + d div 365"] by simp
  moreover have "365 * (d div 365) \<le> d" by simp
  ultimately show ?thesis using False by (simp add: DayFromYear_1970)
qed

lemma year_search_correct:
  "DayFromYear y \<le> d \<Longrightarrow>
     DayFromYear (year_search y d) \<le> d \<and> d < DayFromYear (year_search y d + 1)"
proof (induction y d rule: year_search.induct)
  case (1 y d)
  show ?case
  proof (cases "DayFromYear (y + 1) \<le> d")
    case True
    with "1.IH" show ?thesis by (subst (1 2) year_search.simps) simp
  next
    case False
    with "1.prems" show ?thesis by (subst (1 2) year_search.simps) simp
  qed
qed

lemma year_unique:
  assumes "DayFromYear y \<le> d" "d < DayFromYear (y + 1)"
    and "DayFromYear z \<le> d" "d < DayFromYear (z + 1)"
  shows "y = z"
proof (rule ccontr)
  assume "y \<noteq> z"
  then consider "y + 1 \<le> z" | "z + 1 \<le> y" by linarith
  then show False
  proof cases
    case 1
    from DayFromYear_mono [OF this] assms show False by linarith
  next
    case 2
    from DayFromYear_mono [OF this] assms show False by linarith
  qed
qed

lemma YearFromDay_eq:
  assumes "DayFromYear y \<le> d" "d < DayFromYear (y + 1)"
  shows "YearFromDay d = y"
proof -
  have "DayFromYear (YearFromDay d) \<le> d \<and> d < DayFromYear (YearFromDay d + 1)"
    unfolding YearFromDay_def by (rule year_search_correct [OF year_search_start])
  with assms show ?thesis using year_unique by blast
qed


lemma month_cases:
  fixes M :: int
  assumes "1 \<le> M" "M \<le> 12"
  obtains "M = 1" | "M = 2" | "M = 3" | "M = 4" | "M = 5" | "M = 6"
        | "M = 7" | "M = 8" | "M = 9" | "M = 10" | "M = 11" | "M = 12"
proof -
  have "M = 1 \<or> M = 2 \<or> M = 3 \<or> M = 4 \<or> M = 5 \<or> M = 6
      \<or> M = 7 \<or> M = 8 \<or> M = 9 \<or> M = 10 \<or> M = 11 \<or> M = 12"
    using assms by arith
  then show thesis using that by blast
qed

lemma Day_MakeDate:
  assumes "0 \<le> tod" "tod < msPerDay"
  shows "Day (MakeDate day tod) = day" and "TimeWithinDay (MakeDate day tod) = tod"
proof -
  have e: "MakeDate day tod = msPerDay * day + tod" by (simp add: MakeDate_def)
  show "Day (MakeDate day tod) = day"
    unfolding Day_def using int_div_pos_eq [OF e assms] .
  show "TimeWithinDay (MakeDate day tod) = tod"
    unfolding TimeWithinDay_def using int_mod_pos_eq [OF e assms] .
qed

lemma MakeDay_in_year:
  assumes "1 \<le> M" "M \<le> 12"
  shows "MakeDay Y (M - 1) D = DayFromYear Y + DaysBeforeMonth (DaysInYear Y = 366) (M - 1) + D - 1"
proof -
  have "(M - 1) div 12 = 0" "(M - 1) mod 12 = M - 1" using assms by simp_all
  then show ?thesis by (simp add: MakeDay_def)
qed

lemma day_within_year_bounds:
  assumes "1 \<le> M" "M \<le> 12" "1 \<le> D" "D \<le> DaysInMonth Y M"
  shows "0 \<le> DaysBeforeMonth (DaysInYear Y = 366) (M - 1) + D - 1"
    and "DaysBeforeMonth (DaysInYear Y = 366) (M - 1) + D - 1 < DaysInYear Y"
proof -
  have l: "DaysInYear Y = 365 \<or> DaysInYear Y = 366" by (simp add: DaysInYear_def)
  show "0 \<le> DaysBeforeMonth (DaysInYear Y = 366) (M - 1) + D - 1"
    by (rule month_cases [OF assms(1,2)]) (use assms(3) in \<open>simp_all add: DaysBeforeMonth_def\<close>)
  show "DaysBeforeMonth (DaysInYear Y = 366) (M - 1) + D - 1 < DaysInYear Y"
    by (rule month_cases [OF assms(1,2)])
       (use assms(4) l in \<open>auto simp add: DaysBeforeMonth_def DaysInMonth_def\<close>)
qed

lemma civil_roundtrip:
  assumes M: "1 \<le> M" "M \<le> 12" and D: "1 \<le> D" "D \<le> DaysInMonth Y M"
    and tod: "0 \<le> tod" "tod < msPerDay"
  shows "YearFromTime (MakeDate (MakeDay Y (M - 1) D) tod) = Y"
    and "MonthFromTime (MakeDate (MakeDay Y (M - 1) D) tod) = M - 1"
    and "DateFromTime (MakeDate (MakeDay Y (M - 1) D) tod) = D"
proof -
  let ?t = "MakeDate (MakeDay Y (M - 1) D) tod"
  let ?l = "DaysInYear Y = 366"
  let ?dy = "DaysBeforeMonth ?l (M - 1) + D - 1"
  have day: "Day ?t = DayFromYear Y + ?dy"
    using Day_MakeDate(1) [OF tod] MakeDay_in_year [OF M] by simp
  have b: "0 \<le> ?dy" "?dy < DaysInYear Y"
    using day_within_year_bounds [OF M D] by simp_all
  have "YearFromDay (DayFromYear Y + ?dy) = Y"
    by (rule YearFromDay_eq) (use b DayFromYear_succ [of Y] in simp_all)
  then show y: "YearFromTime ?t = Y" by (simp add: YearFromTime_def day)
  have dw: "DayWithinYear ?t = ?dy" by (simp add: DayWithinYear_def y day)
  have lp: "InLeapYear ?t = ?l" by (simp add: InLeapYear_def y)
  have l: "DaysInYear Y = 365 \<or> DaysInYear Y = 366" by (simp add: DaysInYear_def)
  show m: "MonthFromTime ?t = M - 1"
    unfolding MonthFromTime_def dw lp
    by (rule month_cases [OF M])
       (use D l in \<open>auto simp add: DaysBeforeMonth_def DaysInMonth_def\<close>)
  show "DateFromTime ?t = D"
    by (simp add: DateFromTime_def dw lp m)
qed

lemma time_fields:
  assumes "0 \<le> h" "h < 24" "0 \<le> mi" "mi < 60" "0 \<le> s" "s < 60" "0 \<le> ms" "ms < 1000"
  shows "0 \<le> MakeTime h mi s ms" and "MakeTime h mi s ms < msPerDay"
    and "HourFromTime (MakeDate day (MakeTime h mi s ms)) = h"
    and "MinFromTime (MakeDate day (MakeTime h mi s ms)) = mi"
    and "SecFromTime (MakeDate day (MakeTime h mi s ms)) = s"
    and "msFromTime (MakeDate day (MakeTime h mi s ms)) = ms"
proof -
  let ?t = "MakeDate day (MakeTime h mi s ms)"
  show "0 \<le> MakeTime h mi s ms" "MakeTime h mi s ms < msPerDay"
    using assms
    by (simp_all add: MakeTime_def msPerDay_def msPerHour_def msPerMinute_def msPerSecond_def)
  have eh: "?t = msPerHour * (day * 24 + h) + (mi * 60000 + s * 1000 + ms)"
    by (simp add: MakeDate_def MakeTime_def msPerDay_def msPerHour_def msPerMinute_def
        msPerSecond_def algebra_simps)
  have "?t div msPerHour = day * 24 + h"
    by (rule int_div_pos_eq [OF eh]) (use assms in \<open>simp_all add: msPerHour_def\<close>)
  then show "HourFromTime ?t = h" using assms by (simp add: HourFromTime_def)
  have em: "?t = msPerMinute * (day * 1440 + h * 60 + mi) + (s * 1000 + ms)"
    by (simp add: MakeDate_def MakeTime_def msPerDay_def msPerHour_def msPerMinute_def
        msPerSecond_def algebra_simps)
  have dm: "?t div msPerMinute = day * 1440 + h * 60 + mi"
    by (rule int_div_pos_eq [OF em]) (use assms in \<open>simp_all add: msPerMinute_def\<close>)
  have "(?t div msPerMinute) mod 60 = mi"
  proof (rule int_mod_pos_eq)
    show "?t div msPerMinute = 60 * (day * 24 + h) + mi" using dm by simp
  qed (use assms in simp_all)
  then show "MinFromTime ?t = mi" by (simp add: MinFromTime_def)
  have es: "?t = msPerSecond * (day * 86400 + h * 3600 + mi * 60 + s) + ms"
    by (simp add: MakeDate_def MakeTime_def msPerDay_def msPerHour_def msPerMinute_def
        msPerSecond_def algebra_simps)
  have ds: "?t div msPerSecond = day * 86400 + h * 3600 + mi * 60 + s"
    by (rule int_div_pos_eq [OF es]) (use assms in \<open>simp_all add: msPerSecond_def\<close>)
  have "(?t div msPerSecond) mod 60 = s"
  proof (rule int_mod_pos_eq)
    show "?t div msPerSecond = 60 * (day * 1440 + h * 60 + mi) + s" using ds by simp
  qed (use assms in simp_all)
  then show "SecFromTime ?t = s" by (simp add: SecFromTime_def)
  show "msFromTime ?t = ms"
    unfolding msFromTime_def
    by (rule int_mod_pos_eq [OF es]) (use assms in \<open>simp_all add: msPerSecond_def\<close>)
qed

text \<open>Every instant that is a whole second has fields in the calendar.\<close>

lemma month_day_exist:
  fixes dy :: int
  assumes "0 \<le> dy" "dy < DaysInYear Y"
  shows "\<exists>M D. 1 \<le> M \<and> M \<le> 12 \<and> 1 \<le> D \<and> int D \<le> DaysInMonth Y (int M)
           \<and> DaysBeforeMonth (DaysInYear Y = 366) (int M - 1) + int D - 1 = dy"
proof -
  define l :: int where "l = (if DaysInYear Y = 366 then 1 else 0)"
  have ly: "DaysInYear Y = 365 + l" by (simp add: l_def DaysInYear_def)
  have w: "\<exists>M D. 1 \<le> M \<and> M \<le> 12 \<and> 1 \<le> D \<and> int D \<le> DaysInMonth Y (int M)
           \<and> DaysBeforeMonth (DaysInYear Y = 366) (int M - 1) + int D - 1 = dy"
    if "1 \<le> m" "m \<le> 12" "DaysBeforeMonth (DaysInYear Y = 366) (int m - 1) \<le> dy"
      "dy < DaysBeforeMonth (DaysInYear Y = 366) (int m - 1) + DaysInMonth Y (int m)"
    for m :: nat
    using that
    by (intro exI [of _ m]
          exI [of _ "nat (dy - DaysBeforeMonth (DaysInYear Y = 366) (int m - 1) + 1)"]) auto
  consider "dy < 31" | "31 \<le> dy \<and> dy < 59 + l" | "59 + l \<le> dy \<and> dy < 90 + l"
    | "90 + l \<le> dy \<and> dy < 120 + l" | "120 + l \<le> dy \<and> dy < 151 + l"
    | "151 + l \<le> dy \<and> dy < 181 + l" | "181 + l \<le> dy \<and> dy < 212 + l"
    | "212 + l \<le> dy \<and> dy < 243 + l" | "243 + l \<le> dy \<and> dy < 273 + l"
    | "273 + l \<le> dy \<and> dy < 304 + l" | "304 + l \<le> dy \<and> dy < 334 + l"
    | "334 + l \<le> dy"
    by linarith
  then show ?thesis
  proof cases
    case 1 then show ?thesis using assms
      by (intro w [of 1]) (simp_all add: DaysBeforeMonth_def DaysInMonth_def)
  next
    case 2 then show ?thesis
      by (intro w [of 2]) (auto simp add: DaysBeforeMonth_def DaysInMonth_def l_def)
  next
    case 3 then show ?thesis
      by (intro w [of 3]) (auto simp add: DaysBeforeMonth_def DaysInMonth_def l_def)
  next
    case 4 then show ?thesis
      by (intro w [of 4]) (auto simp add: DaysBeforeMonth_def DaysInMonth_def l_def)
  next
    case 5 then show ?thesis
      by (intro w [of 5]) (auto simp add: DaysBeforeMonth_def DaysInMonth_def l_def)
  next
    case 6 then show ?thesis
      by (intro w [of 6]) (auto simp add: DaysBeforeMonth_def DaysInMonth_def l_def)
  next
    case 7 then show ?thesis
      by (intro w [of 7]) (auto simp add: DaysBeforeMonth_def DaysInMonth_def l_def)
  next
    case 8 then show ?thesis
      by (intro w [of 8]) (auto simp add: DaysBeforeMonth_def DaysInMonth_def l_def)
  next
    case 9 then show ?thesis
      by (intro w [of 9]) (auto simp add: DaysBeforeMonth_def DaysInMonth_def l_def)
  next
    case 10 then show ?thesis
      by (intro w [of 10]) (auto simp add: DaysBeforeMonth_def DaysInMonth_def l_def)
  next
    case 11 then show ?thesis
      by (intro w [of 11]) (auto simp add: DaysBeforeMonth_def DaysInMonth_def l_def)
  next
    case 12
    moreover have "dy < 365 + l" using assms(2) ly by simp
    ultimately show ?thesis
      by (intro w [of 12]) (auto simp add: DaysBeforeMonth_def DaysInMonth_def l_def)
  qed
qed

lemma time_of_day_exist:
  fixes tod :: int
  assumes "0 \<le> tod" "tod < msPerDay" "tod mod 1000 = 0"
  shows "\<exists>h mi s. h \<le> 23 \<and> mi \<le> 59 \<and> s \<le> 59 \<and> MakeTime (int h) (int mi) (int s) 0 = tod"
proof -
  define a where "a = tod div 1000"
  have t: "tod = 1000 * a" using assms(3) by (auto simp add: a_def)
  have b: "0 \<le> a" "a < 86400" using assms(1,2) by (simp_all add: t msPerDay_def)
  have e: "a = 3600 * (a div 3600) + 60 * (a div 60 mod 60) + a mod 60"
  proof -
    define p where "p = a div 60"
    define r where "r = a mod 60"
    define q where "q = p div 60"
    define m where "m = p mod 60"
    have "a div 3600 = q" using zdiv_zmult2_eq [of 60 a 60] by (simp add: q_def p_def)
    moreover have "a = 60 * p + r" by (simp add: p_def r_def)
    moreover have "p = 60 * q + m" by (simp add: q_def m_def)
    ultimately have "a = 3600 * (a div 3600) + 60 * m + r" by linarith
    then show ?thesis by (simp add: m_def r_def p_def)
  qed
  have h: "0 \<le> a div 3600" "a div 3600 \<le> 23" using b by simp_all
  have m: "0 \<le> a div 60 mod 60" "a div 60 mod 60 \<le> 59" by simp_all
  have s: "0 \<le> a mod 60" "a mod 60 \<le> 59" by simp_all
  have "MakeTime (int (nat (a div 3600))) (int (nat (a div 60 mod 60))) (int (nat (a mod 60))) 0
      = tod"
    using h m s e
    by (simp add: MakeTime_def msPerHour_def msPerMinute_def msPerSecond_def t)
  moreover have "nat (a div 3600) \<le> 23" "nat (a div 60 mod 60) \<le> 59" "nat (a mod 60) \<le> 59"
    using h m s by simp_all
  ultimately show ?thesis by blast
qed

lemma UTC_fields_exist:
  assumes "u mod 1000 = 0"
  shows "\<exists>Y M D h mi s. 1 \<le> M \<and> M \<le> 12 \<and> 1 \<le> D \<and> int D \<le> DaysInMonth Y (int M)
           \<and> h \<le> 23 \<and> mi \<le> 59 \<and> s \<le> 59 \<and> UTC_time_value Y M D h mi s = u"
proof -
  define d where "d = u div msPerDay"
  define tod where "tod = u mod msPerDay"
  have u: "u = d * msPerDay + tod" by (simp add: d_def tod_def)
  have tb: "0 \<le> tod" "tod < msPerDay" by (simp_all add: tod_def msPerDay_def)
  have "(1000::int) dvd msPerDay" by (simp add: msPerDay_def)
  then have "tod mod 1000 = u mod 1000" unfolding tod_def by (rule mod_mod_cancel)
  with assms have tm: "tod mod 1000 = 0" by simp
  define Y where "Y = YearFromDay d"
  have yb: "DayFromYear Y \<le> d" "d < DayFromYear (Y + 1)"
    unfolding Y_def YearFromDay_def
    using year_search_correct [OF year_search_start [of d]] by simp_all
  define dy where "dy = d - DayFromYear Y"
  have db: "0 \<le> dy" "dy < DaysInYear Y"
    using yb DayFromYear_succ [of Y] by (simp_all add: dy_def)
  obtain M D where md: "1 \<le> M" "M \<le> 12" "1 \<le> D" "int D \<le> DaysInMonth Y (int M)"
    "DaysBeforeMonth (DaysInYear Y = 366) (int M - 1) + int D - 1 = dy"
    using month_day_exist [OF db] by blast
  obtain h mi s where hms: "h \<le> 23" "mi \<le> 59" "s \<le> 59"
    "MakeTime (int h) (int mi) (int s) 0 = tod"
    using time_of_day_exist [OF tb tm] by blast
  have "MakeDay Y (int M - 1) (int D) = DayFromYear Y + dy"
    using MakeDay_in_year [of "int M" Y "int D"] md by simp
  then have "UTC_time_value Y M D h mi s = u"
    by (simp add: UTC_time_value_def hms(4) MakeDate_def u dy_def)
  with md hms show ?thesis by blast
qed

section \<open>Fixed-width decimal fields\<close>

lemma is_digit_digit_char: "n < 10 \<Longrightarrow> is_digit (digit_char n)"
  by (simp add: is_digit_def digit_char_def)

lemma digit_val_digit_char: "n < 10 \<Longrightarrow> digit_val (digit_char n) = n"
  by (simp add: digit_val_def digit_char_def)

lemma is_digit_not_sign: "is_digit c \<Longrightarrow> c \<noteq> CHR ''+'' \<and> c \<noteq> CHR ''-''"
  by (auto simp: is_digit_def)

lemma length_pad_digits: "length (pad_digits w n) = w"
  by (induction w arbitrary: n) simp_all

lemma all_digits_pad_digits: "list_all is_digit (pad_digits w n)"
  by (induction w arbitrary: n) (simp_all add: is_digit_digit_char)

lemma digits_val_snoc: "digits_val (xs @ [c]) = 10 * digits_val xs + digit_val c"
  by (simp add: digits_val_def)

lemma digits_val_pad_digits: "digits_val (pad_digits w n) = n mod 10 ^ w"
proof (induction w arbitrary: n)
  case 0
  show ?case by (simp add: digits_val_def)
next
  case (Suc w)
  have "n mod (10 * 10 ^ w) = 10 * (n div 10 mod 10 ^ w) + n mod 10"
    by (simp add: mod_mult2_eq)
  with Suc show ?case
    by (simp add: digits_val_snoc digit_val_digit_char)
qed

lemma take_digits_pad_digits:
  "n < 10 ^ w \<Longrightarrow> take_digits w (pad_digits w n @ r) = Some (n, r)"
  by (simp add: take_digits_def length_pad_digits all_digits_pad_digits digits_val_pad_digits)

lemma take_digits_2: "n < 100 \<Longrightarrow> take_digits 2 (pad_digits 2 n @ r) = Some (n, r)"
  using take_digits_pad_digits [of n 2 r] by simp

lemma take_digits_4: "n < 10000 \<Longrightarrow> take_digits 4 (pad_digits 4 n @ r) = Some (n, r)"
  using take_digits_pad_digits [of n 4 r] by simp

lemma pad_digits_nonempty: "0 < w \<Longrightarrow> \<exists>c cs. pad_digits w n = c # cs \<and> is_digit c"
proof -
  assume "0 < w"
  then have "pad_digits w n \<noteq> []" using length_pad_digits [of w n] by auto
  then obtain c cs where e: "pad_digits w n = c # cs" by (cases "pad_digits w n") auto
  moreover have "is_digit c" using all_digits_pad_digits [of w n] e by simp
  ultimately show ?thesis by blast
qed

lemma parse_year_4: 
  assumes "Y < 10000"
  shows "parse_year (pad_digits 4 Y @ r) = Some (int Y, r)"
proof -
  obtain c cs where e: "pad_digits 4 Y = c # cs" and d: "is_digit c"
    using pad_digits_nonempty [of 4 Y] by auto
  have "parse_year ((c # cs) @ r) = 
        Option.bind (take_digits 4 ((c # cs) @ r)) (\<lambda>(y, r'). Some (int y, r'))"
    using is_digit_not_sign [OF d] by (simp add: parse_year_def)
  then show ?thesis unfolding e [symmetric] by (simp add: take_digits_4 assms)
qed

lemma expect_char_Cons: "expect_char c (x # r) = (if x = c then Some r else None)"
  by (simp add: expect_char_def)

lemma expect_char_Nil: "expect_char c [] = None"
  by (simp add: expect_char_def)

section \<open>The date conversion on strings of the pattern\<close>

lemma pad_digits_2: "pad_digits 2 n = [digit_char (n div 10 mod 10), digit_char (n mod 10)]"
proof -
  have "(2::nat) = Suc (Suc 0)" by simp
  then show ?thesis by (simp only: pad_digits.simps) simp
qed

lemma pad_digits_3:
  "pad_digits 3 n = [digit_char (n div 100 mod 10), digit_char (n div 10 mod 10), digit_char (n mod 10)]"
proof -
  have "(3::nat) = Suc (Suc (Suc 0))" by simp
  then show ?thesis by (simp only: pad_digits.simps) (simp add: div_mult2_eq [symmetric])
qed

lemma pad_digits_4:
  "pad_digits 4 n = [digit_char (n div 1000 mod 10), digit_char (n div 100 mod 10),
     digit_char (n div 10 mod 10), digit_char (n mod 10)]"
proof -
  have "(4::nat) = Suc (Suc (Suc (Suc 0)))" by simp
  then show ?thesis by (simp only: pad_digits.simps) (simp add: div_mult2_eq [symmetric])
qed

lemma match_date_time_string:
  "match_atoms date_time_pattern (date_time_string CHR ''-'' Y M D h mi s @ r)"
  by (simp add: date_time_pattern_def date_time_string_def pad_digits_2 pad_digits_4
      is_digit_digit_char)

lemma replace_separator_date_time_string:
  "replace_separator (date_time_string CHR ''-'' Y M D h mi s) =
     date_time_string CHR ''T'' Y M D h mi s"
proof -
  obtain c cs where e: "date_time_string CHR ''-'' Y M D h mi s = c # cs"
    by (cases "date_time_string CHR ''-'' Y M D h mi s")
       (simp_all add: date_time_string_def pad_digits_4)
  have "replace_separator (c # cs) = take 10 (c # cs) @ ''T'' @ drop 11 (c # cs)"
    using match_date_time_string [of Y M D h mi s "[]"] e by simp
  then show ?thesis
    unfolding e [symmetric]
    by (simp add: date_time_string_def pad_digits_2 pad_digits_4)
qed

lemma parse_month_day_full:
  assumes "1 \<le> M" "M \<le> 12" "1 \<le> D" "D \<le> 31"
  shows "parse_month_day (CHR ''-'' # pad_digits 2 M @ CHR ''-'' # pad_digits 2 D @ r) =
           Some ((M, D), r)"
  using assms by (simp add: parse_month_day_def expect_char_Cons take_digits_2)

lemma parse_time_seconds:
  assumes "time_fields_ok h mi s 0" "h < 100" "mi < 100" "s < 100"
  shows "parse_time (pad_digits 2 h @ CHR '':'' # pad_digits 2 mi @ CHR '':'' # pad_digits 2 s) =
           Some ((h, mi, s, 0), [])"
  using assms take_digits_2 [of s "[]"]
  by (simp add: parse_time_def expect_char_Cons expect_char_Nil take_digits_2)

lemma parse_date_time_string:
  assumes "Y \<le> 9999" "1 \<le> M" "M \<le> 12" "1 \<le> D" "D \<le> 31"
    and "time_fields_ok h mi s 0" "h < 100" "mi < 100" "s < 100"
  shows "parse_date_time (date_time_string CHR ''T'' Y M D h mi s) =
           Some (local_time_value Y M D h mi s, ZoneLocal)"
  using assms
  by (simp add: parse_date_time_def date_time_string_def parse_year_4 parse_month_day_full
      parse_time_seconds expect_char_Cons parse_zone_def local_time_value_def)

lemma DaysInMonth_le_31: "DaysInMonth y m \<le> 31"
  by (simp add: DaysInMonth_def)

lemma local_time_value_bounds:
  assumes "Y \<le> 9999" "1 \<le> M" "M \<le> 12" "1 \<le> D" "D \<le> 31" "h \<le> 23" "mi \<le> 59" "s \<le> 59"
  shows "\<bar>local_time_value Y M D h mi s\<bar> \<le> 8640000000000000"
proof -
  have lo: "DayFromYear 0 \<le> DayFromYear (int Y)" by (rule DayFromYear_mono) simp
  have hi: "DayFromYear (int Y) \<le> DayFromYear 9999" by (rule DayFromYear_mono) (use assms in simp)
  have v: "DayFromYear 0 = - 719528" "DayFromYear 9999 = 2932532"
    by (simp_all add: DayFromYear_def)
  have b: "0 \<le> DaysBeforeMonth (DaysInYear (int Y) = 366) (int M - 1)"
    "DaysBeforeMonth (DaysInYear (int Y) = 366) (int M - 1) \<le> 366"
    by (simp_all add: DaysBeforeMonth_def)
  have e: "local_time_value Y M D h mi s =
      (DayFromYear (int Y) + DaysBeforeMonth (DaysInYear (int Y) = 366) (int M - 1) + int D - 1)
        * 86400000 + (int h * 3600000 + int mi * 60000 + int s * 1000)"
    using assms MakeDay_in_year [of "int M" "int Y" "int D"]
    by (simp add: local_time_value_def MakeDate_def MakeTime_def msPerDay_def msPerHour_def
        msPerMinute_def msPerSecond_def)
  define day where "day = DayFromYear (int Y)
      + DaysBeforeMonth (DaysInYear (int Y) = 366) (int M - 1) + int D - 1"
  define tod where "tod = int h * 3600000 + int mi * 60000 + int s * 1000"
  have "- 719528 \<le> day" "day \<le> 2932929" using lo hi v b assms by (simp_all add: day_def)
  moreover have "0 \<le> tod" "tod \<le> 86400000" using assms by (simp_all add: tod_def)
  ultimately have "\<bar>day * 86400000 + tod\<bar> \<le> 8640000000000000" by linarith
  then show ?thesis unfolding e day_def tod_def .
qed

lemma toISOString_local_time_value:
  assumes "Y \<le> 9999" "1 \<le> M" "M \<le> 12" "1 \<le> D" "int D \<le> DaysInMonth (int Y) (int M)"
    and "h \<le> 23" "mi \<le> 59" "s \<le> 59"
  shows "toISOString (Some (local_time_value Y M D h mi s)) =
           Inr (date_time_string CHR ''T'' Y M D h mi s @ ''.000Z'')"
proof -
  let ?tod = "MakeTime (int h) (int mi) (int s) 0"
  let ?t = "local_time_value Y M D h mi s"
  have t: "?t = MakeDate (MakeDay (int Y) (int M - 1) (int D)) ?tod"
    by (simp add: local_time_value_def)
  have tf: "0 \<le> ?tod" "?tod < msPerDay"
    "HourFromTime ?t = int h" "MinFromTime ?t = int mi" "SecFromTime ?t = int s"
    "msFromTime ?t = 0"
    unfolding t using assms by (simp_all add: time_fields)
  have c: "YearFromTime ?t = int Y" "MonthFromTime ?t = int M - 1" "DateFromTime ?t = int D"
    unfolding t using assms tf(1,2) by (simp_all add: civil_roundtrip)
  have m: "nat (int M - 1 + 1) = M" by simp
  have z: "pad_digits 3 0 = ''000''" by code_simp
  show ?thesis
    using assms(1)
    by (simp add: toISOString_def c tf m z year_field_def date_time_string_def)
qed

section \<open>Evaluation on concrete inputs\<close>

lemma digit_char_eval:
  "digit_char 0 = CHR ''0''" "digit_char 1 = CHR ''1''" "digit_char 2 = CHR ''2''"
  "digit_char 3 = CHR ''3''" "digit_char 4 = CHR ''4''" "digit_char 5 = CHR ''5''"
  "digit_char 6 = CHR ''6''" "digit_char 7 = CHR ''7''" "digit_char 8 = CHR ''8''"
  "digit_char 9 = CHR ''9''" "digit_char (Suc 0) = CHR ''1''"
  by code_simp+

lemma year_search_step: "DayFromYear (y + 1) \<le> d \<Longrightarrow> year_search y d = year_search (y + 1) d"
  by (subst year_search.simps) simp

lemma year_search_stop: "d < DayFromYear (y + 1) \<Longrightarrow> year_search y d = y"
  by (subst year_search.simps) simp

lemmas date_parse_eval =
  parse_date_time_def parse_year_def parse_month_day_def parse_time_def parse_zone_def
  take_digits_def expect_char_def is_digit_def digits_val_def digit_val_def time_fields_ok_def
  MakeDate_def MakeDay_def MakeTime_def DayFromYear_def DaysBeforeMonth_def DaysInYear_def
  msPerDay_def msPerHour_def msPerMinute_def msPerSecond_def

lemmas date_render_eval =
  toISOString_def year_field_def pad_digits_2 pad_digits_3 pad_digits_4 digit_char_eval
  YearFromTime_def YearFromDay_def year_search_step year_search_stop
  MonthFromTime_def DateFromTime_def DayWithinYear_def InLeapYear_def
  DaysInYear_def DaysBeforeMonth_def Day_def DayFromYear_def HourFromTime_def
  MinFromTime_def SecFromTime_def msFromTime_def
  msPerDay_def msPerHour_def msPerMinute_def msPerSecond_def

lemma demo_fields:
  "LocalTZA demo_env = (\<lambda>t. 0)" "Date_parse_fallback demo_env = (\<lambda>s. None)"
  "LocalTZA demo_env_east = (\<lambda>t. 3600000)" "Date_parse_fallback demo_env_east = (\<lambda>s. None)"
  by (simp_all add: demo_env_def demo_env_east_def)

lemma east_parse:
  "Date_parse demo_env_east ''2024-01-02T03:04:05'' = Some 1704161045000"
  by (simp add: Date_parse_def demo_fields TimeClip_def date_parse_eval)

lemma east_render: "toISOString (Some 1704161045000) = Inr ''2024-01-02T02:04:05.000Z''"
  by (simp add: date_render_eval)

lemma parse_date_only: "Date_parse demo_env ''2024-01-02'' = Some 1704153600000"
  by (simp add: Date_parse_def demo_fields TimeClip_def date_parse_eval)

lemma render_date_only: "toISOString (Some 1704153600000) = Inr ''2024-01-02T00:00:00.000Z''"
  by (simp add: date_render_eval)

lemma parse_feb_30: "Date_parse demo_env ''2024-02-30T00:00:00'' = Some 1709251200000"
  by (simp add: Date_parse_def demo_fields TimeClip_def date_parse_eval)

lemma render_feb_30: "toISOString (Some 1709251200000) = Inr ''2024-03-01T00:00:00.000Z''"
  by (simp add: date_render_eval)

lemma parse_date_time_out_of_range:
  assumes "Y \<le> 9999" "M \<le> 99" "D \<le> 99" "h \<le> 99" "mi \<le> 99" "s \<le> 99"
    and "M < 1 \<or> 12 < M \<or> D < 1 \<or> 31 < D \<or> \<not> time_fields_ok h mi s 0"
  shows "parse_date_time (date_time_string CHR ''T'' Y M D h mi s) = None"
  using assms take_digits_2 [of s "[]"]
  by (auto simp add: parse_date_time_def date_time_string_def parse_year_4 parse_month_day_def
      parse_time_def expect_char_Cons expect_char_Nil take_digits_2)

lemma convertToISO8601_pattern_both:
  assumes "Y \<le> 9999" "1 \<le> M" "M \<le> 12" "1 \<le> D" "int D \<le> DaysInMonth (int Y) (int M)"
    and "h \<le> 23" "mi \<le> 59" "s \<le> 59"
  shows "convertToISO8601 rt (JStr (date_time_string CHR ''-'' Y M D h mi s)) =
           toISOString (TimeClip (local_time_value Y M D h mi s
             - LocalTZA rt (local_time_value Y M D h mi s)))
         \<and> (LocalTZA rt (local_time_value Y M D h mi s) = 0 \<longrightarrow>
             convertToISO8601 rt (JStr (date_time_string CHR ''-'' Y M D h mi s)) =
               Inr (date_time_string CHR ''T'' Y M D h mi s @ ''.000Z''))"
proof -
  have d31: "D \<le> 31" using assms(5) DaysInMonth_le_31 [of "int Y" "int M"] by linarith
  have ok: "time_fields_ok h mi s 0" using assms by (simp add: time_fields_ok_def)
  have p: "parse_date_time (date_time_string CHR ''T'' Y M D h mi s) =
             Some (local_time_value Y M D h mi s, ZoneLocal)"
    by (rule parse_date_time_string) (use assms d31 ok in simp_all)
  have g: "convertToISO8601 rt (JStr (date_time_string CHR ''-'' Y M D h mi s)) =
           toISOString (TimeClip (local_time_value Y M D h mi s
             - LocalTZA rt (local_time_value Y M D h mi s)))"
    by (simp add: convertToISO8601_def replace_separator_date_time_string Date_parse_def p)
  have b: "TimeClip (local_time_value Y M D h mi s) = Some (local_time_value Y M D h mi s)"
    using local_time_value_bounds [of Y M D h mi s] assms d31 by (simp add: TimeClip_def)
  show ?thesis
    using g b toISOString_local_time_value [OF assms] by simp
qed

lemma convertToISO8601_pattern:
  assumes "Y \<le> 9999" "1 \<le> M" "M \<le> 12" "1 \<le> D" "int D \<le> DaysInMonth (int Y) (int M)"
    and "h \<le> 23" "mi \<le> 59" "s \<le> 59"
  shows "convertToISO8601 rt (JStr (date_time_string CHR ''-'' Y M D h mi s)) =
           toISOString (TimeClip (local_time_value Y M D h mi s
             - LocalTZA rt (local_time_value Y M D h mi s)))"
  using convertToISO8601_pattern_both [OF assms] by blast

lemma convertToISO8601_pattern_utc:
  assumes "Y \<le> 9999" "1 \<le> M" "M \<le> 12" "1 \<le> D" "int D \<le> DaysInMonth (int Y) (int M)"
    and "h \<le> 23" "mi \<le> 59" "s \<le> 59"
  shows "LocalTZA rt (local_time_value Y M D h mi s) = 0 \<longrightarrow>
           convertToISO8601 rt (JStr (date_time_string CHR ''-'' Y M D h mi s)) =
             Inr (date_time_string CHR ''T'' Y M D h mi s @ ''.000Z'')"
  using convertToISO8601_pattern_both [OF assms] by blast

section \<open>Date conversion\<close>

lemma local_time_value_tight:
  assumes "Y \<le> 9999" "1 \<le> M" "M \<le> 12" "1 \<le> D" "D \<le> 31" "h \<le> 23" "mi \<le> 59" "s \<le> 59"
  shows "\<bar>local_time_value Y M D h mi s\<bar> \<le> 253405152000000"
proof -
  have lo: "DayFromYear 0 \<le> DayFromYear (int Y)" by (rule DayFromYear_mono) simp
  have hi: "DayFromYear (int Y) \<le> DayFromYear 9999" by (rule DayFromYear_mono) (use assms in simp)
  have v: "DayFromYear 0 = - 719528" "DayFromYear 9999 = 2932532"
    by (simp_all add: DayFromYear_def)
  have b: "0 \<le> DaysBeforeMonth (DaysInYear (int Y) = 366) (int M - 1)"
    "DaysBeforeMonth (DaysInYear (int Y) = 366) (int M - 1) \<le> 366"
    by (simp_all add: DaysBeforeMonth_def)
  have e: "local_time_value Y M D h mi s =
      (DayFromYear (int Y) + DaysBeforeMonth (DaysInYear (int Y) = 366) (int M - 1) + int D - 1)
        * 86400000 + (int h * 3600000 + int mi * 60000 + int s * 1000)"
    using assms MakeDay_in_year [of "int M" "int Y" "int D"]
    by (simp add: local_time_value_def MakeDate_def MakeTime_def msPerDay_def msPerHour_def
        msPerMinute_def msPerSecond_def)
  define day where "day = DayFromYear (int Y)
      + DaysBeforeMonth (DaysInYear (int Y) = 366) (int M - 1) + int D - 1"
  define tod where "tod = int h * 3600000 + int mi * 60000 + int s * 1000"
  have "- 719528 \<le> day" "day \<le> 2932929" using lo hi v b assms by (simp_all add: day_def)
  moreover have "0 \<le> tod" "tod \<le> 86400000" using assms by (simp_all add: tod_def)
  ultimately have "\<bar>day * 86400000 + tod\<bar> \<le> 253405152000000" by linarith
  then show ?thesis unfolding e day_def tod_def .
qed

lemma local_time_value_whole_seconds: "local_time_value Y M D h mi s mod 1000 = 0"
proof -
  have "local_time_value Y M D h mi s =
      1000 * (MakeDay (int Y) (int M - 1) (int D) * 86400 + int h * 3600 + int mi * 60 + int s)"
    by (simp add: local_time_value_def MakeDate_def MakeTime_def msPerDay_def msPerHour_def
        msPerMinute_def msPerSecond_def)
  then show ?thesis by simp
qed

lemma toISOString_UTC_time_value:
  assumes "1 \<le> M" "M \<le> 12" "1 \<le> D" "int D \<le> DaysInMonth Y (int M)"
    and "h \<le> 23" "mi \<le> 59" "s \<le> 59"
  shows "toISOString (Some (UTC_time_value Y M D h mi s)) = Inr (timestamp Y M D h mi s)"
proof -
  let ?tod = "MakeTime (int h) (int mi) (int s) 0"
  let ?t = "UTC_time_value Y M D h mi s"
  have t: "?t = MakeDate (MakeDay Y (int M - 1) (int D)) ?tod"
    by (simp add: UTC_time_value_def)
  have tf: "0 \<le> ?tod" "?tod < msPerDay"
    "HourFromTime ?t = int h" "MinFromTime ?t = int mi" "SecFromTime ?t = int s"
    "msFromTime ?t = 0"
    unfolding t using assms by (simp_all add: time_fields)
  have c: "YearFromTime ?t = Y" "MonthFromTime ?t = int M - 1" "DateFromTime ?t = int D"
    unfolding t using assms tf(1,2) by (simp_all add: civil_roundtrip)
  have m: "nat (int M - 1 + 1) = M" by simp
  have z: "pad_digits 3 0 = ''000''" by code_simp
  show ?thesis
    by (simp add: toISOString_def c tf m z timestamp_def)
qed

lemma convertToISO8601_pattern_shifted:
  assumes "Y \<le> 9999" "1 \<le> M" "M \<le> 12" "1 \<le> D" "int D \<le> DaysInMonth (int Y) (int M)"
    and "h \<le> 23" "mi \<le> 59" "s \<le> 59"
    and "\<bar>LocalTZA rt (local_time_value Y M D h mi s)\<bar> \<le> msPerDay"
  shows "convertToISO8601 rt (JStr (date_time_string CHR ''-'' Y M D h mi s)) =
           toISOString (Some (local_time_value Y M D h mi s
             - LocalTZA rt (local_time_value Y M D h mi s)))"
proof -
  have d31: "D \<le> 31" using assms(5) DaysInMonth_le_31 [of "int Y" "int M"] by linarith
  have "\<bar>local_time_value Y M D h mi s\<bar> \<le> 253405152000000"
    by (rule local_time_value_tight) (use assms d31 in simp_all)
  with assms(9) have "TimeClip (local_time_value Y M D h mi s
      - LocalTZA rt (local_time_value Y M D h mi s)) =
      Some (local_time_value Y M D h mi s - LocalTZA rt (local_time_value Y M D h mi s))"
    by (simp add: TimeClip_def msPerDay_def)
  with convertToISO8601_pattern [OF assms(1-8), of rt] show ?thesis by simp
qed

text \<open>
  Claim C3, as amended. For every string of the pattern \<open>YYYY-MM-DD-HH:MM:SS\<close> that denotes
  a date of the calendar (a year 0000 to 9999, a month 01 to 12, a day of that month, a time
  of day 00:00:00 to 23:59:59), \<open>convertToISO8601\<close> reads the fields as a time of the host's
  local zone. On a host whose offset from UTC is at most a day it returns, and does not
  throw: the result is what \<open>toISOString\<close> gives for that instant, the fields minus the
  local offset. Whenever that instant is a second of the UTC calendar with the fields
  \<open>Y'\<close>, \<open>M'\<close>, \<open>D'\<close>, \<open>h'\<close>, \<open>mi'\<close>, \<open>s'\<close>, the result is the timestamp of these fields,
  \<open>YYYY-MM-DDTHH:MM:SS.000Z\<close> when the year \<open>Y'\<close> is 0000 to 9999, and with the year
  written with a sign and six digits otherwise; and it is such a second, with such
  fields, when the offset is a number of whole seconds. The result has the fields of the
  input when the local offset at that time is zero.
\<close>

theorem convertToISO8601_local_time:
  assumes "Y \<le> 9999" "1 \<le> M" "M \<le> 12" "1 \<le> D" "int D \<le> DaysInMonth (int Y) (int M)"
    and "h \<le> 23" "mi \<le> 59" "s \<le> 59"
  shows "(\<bar>LocalTZA rt (local_time_value Y M D h mi s)\<bar> \<le> msPerDay \<longrightarrow>
            convertToISO8601 rt (JStr (date_time_string CHR ''-'' Y M D h mi s)) =
              toISOString (Some (local_time_value Y M D h mi s
                - LocalTZA rt (local_time_value Y M D h mi s)))
          \<and> (\<exists>z. convertToISO8601 rt (JStr (date_time_string CHR ''-'' Y M D h mi s)) = Inr z)
          \<and> (\<forall>Y' M' D' h' mi' s'.
                1 \<le> M' \<and> M' \<le> 12 \<and> 1 \<le> D' \<and> int D' \<le> DaysInMonth Y' (int M')
                \<and> h' \<le> 23 \<and> mi' \<le> 59 \<and> s' \<le> 59
                \<and> UTC_time_value Y' M' D' h' mi' s' =
                    local_time_value Y M D h mi s - LocalTZA rt (local_time_value Y M D h mi s)
              \<longrightarrow> convertToISO8601 rt (JStr (date_time_string CHR ''-'' Y M D h mi s)) =
                    Inr (timestamp Y' M' D' h' mi' s'))
          \<and> (LocalTZA rt (local_time_value Y M D h mi s) mod 1000 = 0 \<longrightarrow>
                (\<exists>Y' M' D' h' mi' s'.
                   1 \<le> M' \<and> M' \<le> 12 \<and> 1 \<le> D' \<and> int D' \<le> DaysInMonth Y' (int M')
                   \<and> h' \<le> 23 \<and> mi' \<le> 59 \<and> s' \<le> 59
                   \<and> UTC_time_value Y' M' D' h' mi' s' =
                       local_time_value Y M D h mi s
                         - LocalTZA rt (local_time_value Y M D h mi s)
                   \<and> convertToISO8601 rt (JStr (date_time_string CHR ''-'' Y M D h mi s)) =
                       Inr (timestamp Y' M' D' h' mi' s'))))
       \<and> (LocalTZA rt (local_time_value Y M D h mi s) = 0 \<longrightarrow>
            convertToISO8601 rt (JStr (date_time_string CHR ''-'' Y M D h mi s)) =
              Inr (date_time_string CHR ''T'' Y M D h mi s @ ''.000Z''))"
proof -
  let ?x = "JStr (date_time_string CHR ''-'' Y M D h mi s)"
  let ?u = "local_time_value Y M D h mi s - LocalTZA rt (local_time_value Y M D h mi s)"
  have a: "convertToISO8601 rt ?x = toISOString (Some ?u)"
    if "\<bar>LocalTZA rt (local_time_value Y M D h mi s)\<bar> \<le> msPerDay"
    by (rule convertToISO8601_pattern_shifted [OF assms that])
  have b: "\<exists>z. toISOString (Some ?u) = Inr z" by (simp add: toISOString_def)
  have c: "toISOString (Some ?u) = Inr (timestamp Y' M' D' h' mi' s')"
    if "1 \<le> M'" "M' \<le> 12" "1 \<le> D'" "int D' \<le> DaysInMonth Y' (int M')"
      "h' \<le> 23" "mi' \<le> 59" "s' \<le> 59" "UTC_time_value Y' M' D' h' mi' s' = ?u"
    for Y' M' D' h' mi' s'
    using toISOString_UTC_time_value [OF that(1-7)] that(8) by simp
  have d: "\<exists>Y' M' D' h' mi' s'.
      1 \<le> M' \<and> M' \<le> 12 \<and> 1 \<le> D' \<and> int D' \<le> DaysInMonth Y' (int M')
      \<and> h' \<le> 23 \<and> mi' \<le> 59 \<and> s' \<le> 59
      \<and> UTC_time_value Y' M' D' h' mi' s' = ?u
      \<and> toISOString (Some ?u) = Inr (timestamp Y' M' D' h' mi' s')"
    if "LocalTZA rt (local_time_value Y M D h mi s) mod 1000 = 0"
  proof -
    have "1000 dvd local_time_value Y M D h mi s"
      using local_time_value_whole_seconds [of Y M D h mi s] by (simp add: mod_eq_0_iff_dvd)
    moreover have "1000 dvd LocalTZA rt (local_time_value Y M D h mi s)"
      using that by (simp add: mod_eq_0_iff_dvd)
    ultimately have "1000 dvd ?u" by (rule dvd_diff)
    then have "?u mod 1000 = 0" by (simp add: mod_eq_0_iff_dvd)
    from UTC_fields_exist [OF this] obtain Y' M' D' h' mi' s' where
      f: "1 \<le> M'" "M' \<le> 12" "1 \<le> D'" "int D' \<le> DaysInMonth Y' (int M')"
        "h' \<le> 23" "mi' \<le> 59" "s' \<le> 59" "UTC_time_value Y' M' D' h' mi' s' = ?u"
      by blast
    from c [OF f] f show ?thesis by blast
  qed
  have first: "convertToISO8601 rt ?x = toISOString (Some ?u)
      \<and> (\<exists>z. convertToISO8601 rt ?x = Inr z)
      \<and> (\<forall>Y' M' D' h' mi' s'.
            1 \<le> M' \<and> M' \<le> 12 \<and> 1 \<le> D' \<and> int D' \<le> DaysInMonth Y' (int M')
            \<and> h' \<le> 23 \<and> mi' \<le> 59 \<and> s' \<le> 59
            \<and> UTC_time_value Y' M' D' h' mi' s' = ?u
          \<longrightarrow> convertToISO8601 rt ?x = Inr (timestamp Y' M' D' h' mi' s'))
      \<and> (LocalTZA rt (local_time_value Y M D h mi s) mod 1000 = 0 \<longrightarrow>
            (\<exists>Y' M' D' h' mi' s'.
               1 \<le> M' \<and> M' \<le> 12 \<and> 1 \<le> D' \<and> int D' \<le> DaysInMonth Y' (int M')
               \<and> h' \<le> 23 \<and> mi' \<le> 59 \<and> s' \<le> 59
               \<and> UTC_time_value Y' M' D' h' mi' s' = ?u
               \<and> convertToISO8601 rt ?x = Inr (timestamp Y' M' D' h' mi' s')))"
    if o: "\<bar>LocalTZA rt (local_time_value Y M D h mi s)\<bar> \<le> msPerDay"
    unfolding a [OF o] using b c d by blast
  from first convertToISO8601_pattern_utc [OF assms, of rt] show ?thesis by blast
qed

lemma pad_digits_6:
  "pad_digits 6 n = [digit_char (n div 100000 mod 10), digit_char (n div 10000 mod 10),
     digit_char (n div 1000 mod 10), digit_char (n div 100 mod 10),
     digit_char (n div 10 mod 10), digit_char (n mod 10)]"
proof -
  have "(6::nat) = Suc (Suc (Suc (Suc (Suc (Suc 0)))))" by simp
  then show ?thesis by (simp only: pad_digits.simps) (simp add: div_mult2_eq [symmetric])
qed

lemma demo_time_values:
  "local_time_value 2024 1 2 3 4 5 = 1704164645000"
  "UTC_time_value 2024 1 2 2 4 5 = 1704161045000"
  "local_time_value 0 1 1 0 0 0 = - 62167219200000"
  "UTC_time_value (- 1) 12 31 23 0 0 = - 62167222800000"
  by (simp_all add: local_time_value_def UTC_time_value_def MakeDate_def MakeDay_def MakeTime_def
      DayFromYear_def DaysBeforeMonth_def DaysInYear_def msPerDay_def msPerHour_def
      msPerMinute_def msPerSecond_def)

lemma demo_timestamps:
  "timestamp 2024 1 2 2 4 5 = ''2024-01-02T02:04:05.000Z''"
  "timestamp (- 1) 12 31 23 0 0 = ''-000001-12-31T23:00:00.000Z''"
  by (simp_all add: timestamp_def year_field_def pad_digits_2 pad_digits_4 pad_digits_6
      digit_char_eval)

text \<open>
  On a host whose local time is UTC, \<open>2024-01-02-03:04:05\<close> becomes
  \<open>2024-01-02T03:04:05.000Z\<close>. One hour east of UTC it becomes
  \<open>2024-01-02T02:04:05.000Z\<close>, and there the first second of the year 0000 becomes
  \<open>-000001-12-31T23:00:00.000Z\<close>.
\<close>

theorem convertToISO8601_local_time_witness:
  "convertToISO8601 demo_env (JStr ''2024-01-02-03:04:05'') = Inr ''2024-01-02T03:04:05.000Z''
   \<and> convertToISO8601 demo_env_east (JStr ''2024-01-02-03:04:05'')
       = Inr ''2024-01-02T02:04:05.000Z''
   \<and> convertToISO8601 demo_env_east (JStr ''0000-01-01-00:00:00'')
       = Inr ''-000001-12-31T23:00:00.000Z''"
proof -
  have s: "date_time_string CHR ''-'' 2024 1 2 3 4 5 = ''2024-01-02-03:04:05''"
    "date_time_string CHR ''T'' 2024 1 2 3 4 5 = ''2024-01-02T03:04:05''"
    "date_time_string CHR ''-'' 0 1 1 0 0 0 = ''0000-01-01-00:00:00''"
    by (simp_all add: date_time_string_def pad_digits_2 pad_digits_4 digit_char_eval)
  have m: "DaysInMonth 2024 1 = 31" "DaysInMonth 0 1 = 31" "DaysInMonth (- 1) 12 = 31"
    by (simp_all add: DaysInMonth_def)
  have p: "convertToISO8601 demo_env (JStr ''2024-01-02-03:04:05'')
      = Inr ''2024-01-02T03:04:05.000Z''"
    using convertToISO8601_local_time [of 2024 1 2 3 4 5 demo_env, THEN conjunct2]
    by (simp add: date_time_string_def pad_digits_2 pad_digits_4 digit_char_eval DaysInMonth_def
        demo_fields)
  have "convertToISO8601 demo_env_east (JStr (date_time_string CHR ''-'' 2024 1 2 3 4 5))
      = Inr (timestamp 2024 1 2 2 4 5)"
    by (rule convertToISO8601_local_time [THEN conjunct1, THEN mp, THEN conjunct2,
          THEN conjunct2, THEN conjunct1, rule_format])
       (simp_all add: m demo_fields demo_time_values [unfolded One_nat_def] msPerDay_def)
  then have q: "convertToISO8601 demo_env_east (JStr ''2024-01-02-03:04:05'')
      = Inr ''2024-01-02T02:04:05.000Z''"
    unfolding s demo_timestamps .
  have "convertToISO8601 demo_env_east (JStr (date_time_string CHR ''-'' 0 1 1 0 0 0))
      = Inr (timestamp (- 1) 12 31 23 0 0)"
    by (rule convertToISO8601_local_time [THEN conjunct1, THEN mp, THEN conjunct2,
          THEN conjunct2, THEN conjunct1, rule_format])
       (simp_all add: m demo_fields demo_time_values [unfolded One_nat_def] msPerDay_def)
  then have r: "convertToISO8601 demo_env_east (JStr ''0000-01-01-00:00:00'')
      = Inr ''-000001-12-31T23:00:00.000Z''"
    unfolding s demo_timestamps .
  from p q r show ?thesis by simp
qed

text \<open>
  Claim C3 as it was stated fails on a host that is not on UTC: one hour east of UTC the
  same input gives a timestamp one hour earlier, not the fields of the input.
\<close>

theorem convertToISO8601_same_fields_counterexample:
  "convertToISO8601 demo_env_east (JStr ''2024-01-02-03:04:05'') = Inr ''2024-01-02T02:04:05.000Z''
   \<and> convertToISO8601 demo_env_east (JStr ''2024-01-02-03:04:05'')
       \<noteq> Inr ''2024-01-02T03:04:05.000Z''"
  by (simp add: convertToISO8601_def date_time_pattern_def is_digit_def east_parse east_render)

lemma convertToISO8601_throws_iff:
  "convertToISO8601 rt (JStr x) = Inl RangeError \<longleftrightarrow> Date_parse rt (replace_separator x) = None"
  by (simp add: convertToISO8601_def toISOString_def split: option.splits)

text \<open>
  Claim C4, as amended. \<open>convertToISO8601\<close> checks nothing itself: on a string it throws (a
  RangeError) exactly when the date parser of the engine rejects the rewritten string. For
  every string of the layout \<open>dddd-dd-dd-dd:dd:dd\<close> whose month is not 01 to 12, whose day
  is not 01 to 31 or whose time of day is neither within 00:00:00 to 23:59:59 nor
  24:00:00, it throws a RangeError, provided the engine's own fallback parser does not
  accept the string either.
\<close>

theorem convertToISO8601_out_of_range:
  assumes "Y \<le> 9999" "M \<le> 99" "D \<le> 99" "h \<le> 99" "mi \<le> 99" "s \<le> 99"
    and "M < 1 \<or> 12 < M \<or> D < 1 \<or> 31 < D \<or> \<not> time_fields_ok h mi s 0"
    and "Date_parse_fallback rt (date_time_string CHR ''T'' Y M D h mi s) = None"
  shows "(convertToISO8601 rt (JStr x) = Inl RangeError
            \<longleftrightarrow> Date_parse rt (replace_separator x) = None)
       \<and> convertToISO8601 rt (JStr (date_time_string CHR ''-'' Y M D h mi s)) = Inl RangeError"
  using parse_date_time_out_of_range [OF assms(1-7)] assms(8) convertToISO8601_throws_iff [of rt x]
  by (simp add: convertToISO8601_def replace_separator_date_time_string Date_parse_def
      toISOString_def)

theorem convertToISO8601_out_of_range_witness:
  "convertToISO8601 demo_env (JStr ''2024-13-01-00:00:00'') = Inl RangeError"
  using convertToISO8601_out_of_range [of 2024 13 1 0 0 0 demo_env, THEN conjunct2]
  by (simp add: date_time_string_def pad_digits_2 pad_digits_4 digit_char_eval demo_fields)

text \<open>
  Claim C4 as it was stated fails: a date-only string does not match the pattern and a
  thirtieth of February is not a date of the calendar, and both give a well-formed
  timestamp (the second one rolled over into March).
\<close>

theorem convertToISO8601_rejects_counterexample:
  "convertToISO8601 demo_env (JStr ''2024-01-02'') = Inr ''2024-01-02T00:00:00.000Z''
   \<and> convertToISO8601 demo_env (JStr ''2024-02-30-00:00:00'') = Inr ''2024-03-01T00:00:00.000Z''"
  by (simp add: convertToISO8601_def date_time_pattern_def is_digit_def parse_date_only
      render_date_only parse_feb_30 render_feb_30)

section \<open>The client: requests and state\<close>

lemma key_issuance_issuance_request: "key_issuance c (issuance_request c now sig)"
  by (simp add: key_issuance_def issuance_request_def)

lemma createApiKey_cases:
  "createApiKey env sig payload c w =
     (let req = \<lparr>req_verb = POST, req_url = baseUrl c @ ''/apikeys'',
                 req_data = Some payload,
                 req_config = Some \<lparr>headers = [(''api-sig'', JStr sig)]\<rparr>\<rparr>;
          w1 = w\<lparr>sent := sent w @ [req]\<rparr>
      in case axios env (sent w) req of
           Inl e \<Rightarrow> (Inl e, c, w1)
         | Inr d \<Rightarrow> (case get_apikey d of
                       Inl e \<Rightarrow> (Inl e, c, w1)
                     | Inr key \<Rightarrow> (Inr key, updateApiKey c key, w1)))"
  by (simp add: createApiKey_def axios_request_def Let_def split: sum.splits)

lemma generateApiKey_cases:
  "generateApiKey env c w =
     (let now = Date_now env (clock_reads w);
          w1 = w\<lparr>clock_reads := Suc (clock_reads w)\<rparr>
      in case signMessage env (wallet c) (JSON_stringify (nonce_payload now)) of
           Inl e \<Rightarrow> (Inl e, c, w1)
         | Inr sig \<Rightarrow>
             (let w2 = w1\<lparr>sent := sent w @ [issuance_request c now sig]\<rparr> in
              case axios env (sent w) (issuance_request c now sig) of
                Inl e \<Rightarrow> (Inl e, c, w2)
              | Inr d \<Rightarrow> (case get_apikey d of
                            Inl e \<Rightarrow> (Inl e, c, w2)
                          | Inr key \<Rightarrow> (Inr key, updateApiKey c key, w2))))"
  by (simp add: generateApiKey_def createApiKey_cases nonce_payload_def issuance_request_def
      Let_def split: sum.splits)

lemma updateApiKey_fields:
  "privateKey (updateApiKey c key) = privateKey c" "wallet (updateApiKey c key) = wallet c"
  "address (updateApiKey c key) = address c" "baseUrl (updateApiKey c key) = baseUrl c"
  "apiKey (updateApiKey c key) = key"
  by (simp_all add: updateApiKey_def)

lemma map_of_set_prop: "map_of (set_prop k v xs) k = Some v"
  by (induction xs) auto

lemma filter_set_prop:
  "filter (\<lambda>kv. fst kv \<noteq> k) (set_prop k v xs) = filter (\<lambda>kv. fst kv \<noteq> k) xs"
  by (induction xs) auto

lemma updateApiKey_header: "API_Key_header (updateApiKey c key) = Some key"
  by (simp add: API_Key_header_def updateApiKey_def map_of_set_prop)

lemma generateApiKey_success:
  assumes "generateApiKey env c w = (Inr key, c1, w1)"
  shows "\<exists>sig. signMessage env (wallet c)
                  (JSON_stringify (nonce_payload (Date_now env (clock_reads w)))) = Inr sig
          \<and> sent w1 = sent w @ [issuance_request c (Date_now env (clock_reads w)) sig]
          \<and> c1 = updateApiKey c key"
  using assms by (auto simp add: generateApiKey_cases Let_def split: sum.splits)

lemma authenticated_request_held:
  assumes "truthy (apiKey c)"
  shows "authenticated_request env v f p c w =
     (case f (baseUrl c) of
        Inl e \<Rightarrow> (Inl e, c, w)
      | Inr u \<Rightarrow> (axios env (sent w) (own_request v u p c), c,
                  w\<lparr>sent := sent w @ [own_request v u p c]\<rparr>))"
  using assms
  by (simp add: authenticated_request_def ensureApiKey_def axios_request_def own_request_def
      split: sum.splits)

lemma authenticated_request_provisioned:
  assumes "\<not> truthy (apiKey c)" "generateApiKey env c w = (Inr key, c1, w1)"
  shows "authenticated_request env v f p c w =
     (case f (baseUrl c1) of
        Inl e \<Rightarrow> (Inl e, c1, w1)
      | Inr u \<Rightarrow> (axios env (sent w1) (own_request v u p c1), c1,
                  w1\<lparr>sent := sent w1 @ [own_request v u p c1]\<rparr>))"
  using assms
  by (simp add: authenticated_request_def ensureApiKey_def axios_request_def own_request_def
      split: sum.splits)

lemma authenticated_request_failed:
  assumes "\<not> truthy (apiKey c)" "generateApiKey env c w = (Inl e, c1, w1)"
  shows "authenticated_request env v f p c w = (Inl e, c1, w1)"
  using assms by (simp add: authenticated_request_def ensureApiKey_def)

lemmas method_defs =
  getBalances_def getDeposits_def getDepositInfo_def getRefunds_def getRefundInfo_def
  getWithdraws_def requestWithdraw_def getWithdrawInfo_def getOrders_def submitLimitOrder_def
  getOrderInfo_def cancelOrder_def getTrades_def getTradeInfo_def

lemma invoke_authenticated_shape:
  assumes "authenticated_call k"
  shows "\<exists>v f p. (\<forall>c w. invoke env k c w = authenticated_request env v f p c w)
           \<and> (\<forall>b u. f b = Inr u \<longrightarrow> \<not> (v = POST \<and> u = b @ ''/apikeys''))"
proof (cases k)
  case (GetBalances a1)
  show ?thesis
    by (simp only: GetBalances, (rule exI)+, rule conjI,
        (intro allI, simp only: invoke.simps method_defs),
        auto split: sum.splits if_splits)
next
  case (GetDeposits a1 a2 a3)
  show ?thesis
    by (simp only: GetDeposits, (rule exI)+, rule conjI,
        (intro allI, simp only: invoke.simps method_defs),
        auto split: sum.splits if_splits)
next
  case (GetDepositInfo a1)
  show ?thesis
    by (simp only: GetDepositInfo, (rule exI)+, rule conjI,
        (intro allI, simp only: invoke.simps method_defs),
        auto split: sum.splits if_splits)
next
  case (GetRefunds a1 a2 a3)
  show ?thesis
    by (simp only: GetRefunds, (rule exI)+, rule conjI,
        (intro allI, simp only: invoke.simps method_defs),
        auto split: sum.splits if_splits)
next
  case (GetRefundInfo a1)
  show ?thesis
    by (simp only: GetRefundInfo, (rule exI)+, rule conjI,
        (intro allI, simp only: invoke.simps method_defs),
        auto split: sum.splits if_splits)
next
  case (GetWithdraws a1 a2 a3 a4)
  show ?thesis
    by (simp only: GetWithdraws, (rule exI)+, rule conjI,
        (intro allI, simp only: invoke.simps method_defs),
        auto split: sum.splits if_splits)
next
  case (RequestWithdraw a1)
  show ?thesis
    by (simp only: RequestWithdraw, (rule exI)+, rule conjI,
        (intro allI, simp only: invoke.simps method_defs),
        auto split: sum.splits if_splits)
next
  case (GetWithdrawInfo a1)
  show ?thesis
    by (simp only: GetWithdrawInfo, (rule exI)+, rule conjI,
        (intro allI, simp only: invoke.simps method_defs),
        auto split: sum.splits if_splits)
next
  case (GetOrders a1 a2 a3 a4)
  show ?thesis
    by (simp only: GetOrders, (rule exI)+, rule conjI,
        (intro allI, simp only: invoke.simps method_defs),
        auto split: sum.splits if_splits)
next
  case (SubmitLimitOrder a1)
  show ?thesis
    by (simp only: SubmitLimitOrder, (rule exI)+, rule conjI,
        (intro allI, simp only: invoke.simps method_defs),
        auto split: sum.splits if_splits)
next
  case (GetOrderInfo a1)
  show ?thesis
    by (simp only: GetOrderInfo, (rule exI)+, rule conjI,
        (intro allI, simp only: invoke.simps method_defs),
        auto split: sum.splits if_splits)
next
  case (CancelOrder a1)
  show ?thesis
    by (simp only: CancelOrder, (rule exI)+, rule conjI,
        (intro allI, simp only: invoke.simps method_defs),
        auto split: sum.splits if_splits)
next
  case (GetTrades a1 a2 a3 a4)
  show ?thesis
    by (simp only: GetTrades, (rule exI)+, rule conjI,
        (intro allI, simp only: invoke.simps method_defs),
        auto split: sum.splits if_splits)
next
  case (GetTradeInfo a1)
  show ?thesis
    by (simp only: GetTradeInfo, (rule exI)+, rule conjI,
        (intro allI, simp only: invoke.simps method_defs),
        auto split: sum.splits if_splits)
qed (use assms in simp_all)

lemma convertToISO8601_errors:
  "convertToISO8601 rt v = Inl e \<Longrightarrow> e = TypeError \<or> e = RangeError"
  by (auto simp add: convertToISO8601_def toISOString_def Let_def
        split: jsval.splits option.splits)

lemma time_range_errors:
  "time_range rt a b = Inl e \<Longrightarrow> e = TypeError \<or> e = RangeError"
  by (auto simp add: time_range_def dest: convertToISO8601_errors split: sum.splits)

text \<open>
  Building the URL throws only in the five methods with a time range, and then what the
  date conversion throws.
\<close>

lemma invoke_authenticated_errors:
  assumes "authenticated_call k"
  shows "\<exists>v f p. (\<forall>c w. invoke env k c w = authenticated_request env v f p c w)
           \<and> (\<forall>b u. f b = Inr u \<longrightarrow> \<not> (v = POST \<and> u = b @ ''/apikeys''))
           \<and> (\<forall>b e. f b = Inl e \<longrightarrow>
                 takes_time_range k \<and> (e = TypeError \<or> e = RangeError))"
proof (cases k)
  case (GetBalances a1)
  show ?thesis
    by (simp only: GetBalances, (rule exI)+, rule conjI,
        (intro allI, simp only: invoke.simps method_defs),
        auto split: sum.splits if_splits dest: time_range_errors)
next
  case (GetDeposits a1 a2 a3)
  show ?thesis
    by (simp only: GetDeposits, (rule exI)+, rule conjI,
        (intro allI, simp only: invoke.simps method_defs),
        auto split: sum.splits if_splits dest: time_range_errors)
next
  case (GetDepositInfo a1)
  show ?thesis
    by (simp only: GetDepositInfo, (rule exI)+, rule conjI,
        (intro allI, simp only: invoke.simps method_defs),
        auto split: sum.splits if_splits dest: time_range_errors)
next
  case (GetRefunds a1 a2 a3)
  show ?thesis
    by (simp only: GetRefunds, (rule exI)+, rule conjI,
        (intro allI, simp only: invoke.simps method_defs),
        auto split: sum.splits if_splits dest: time_range_errors)
next
  case (GetRefundInfo a1)
  show ?thesis
    by (simp only: GetRefundInfo, (rule exI)+, rule conjI,
        (intro allI, simp only: invoke.simps method_defs),
        auto split: sum.splits if_splits dest: time_range_errors)
next
  case (GetWithdraws a1 a2 a3 a4)
  show ?thesis
    by (simp only: GetWithdraws, (rule exI)+, rule conjI,
        (intro allI, simp only: invoke.simps method_defs),
        auto split: sum.splits if_splits dest: time_range_errors)
next
  case (RequestWithdraw a1)
  show ?thesis
    by (simp only: RequestWithdraw, (rule exI)+, rule conjI,
        (intro allI, simp only: invoke.simps method_defs),
        auto split: sum.splits if_splits dest: time_range_errors)
next
  case (GetWithdrawInfo a1)
  show ?thesis
    by (simp only: GetWithdrawInfo, (rule exI)+, rule conjI,
        (intro allI, simp only: invoke.simps method_defs),
        auto split: sum.splits if_splits dest: time_range_errors)
next
  case (GetOrders a1 a2 a3 a4)
  show ?thesis
    by (simp only: GetOrders, (rule exI)+, rule conjI,
        (intro allI, simp only: invoke.simps method_defs),
        auto split: sum.splits if_splits dest: time_range_errors)
next
  case (SubmitLimitOrder a1)
  show ?thesis
    by (simp only: SubmitLimitOrder, (rule exI)+, rule conjI,
        (intro allI, simp only: invoke.simps method_defs),
        auto split: sum.splits if_splits dest: time_range_errors)
next
  case (GetOrderInfo a1)
  show ?thesis
    by (simp only: GetOrderInfo, (rule exI)+, rule conjI,
        (intro allI, simp only: invoke.simps method_defs),
        auto split: sum.splits if_splits dest: time_range_errors)
next
  case (CancelOrder a1)
  show ?thesis
    by (simp only: CancelOrder, (rule exI)+, rule conjI,
        (intro allI, simp only: invoke.simps method_defs),
        auto split: sum.splits if_splits dest: time_range_errors)
next
  case (GetTrades a1 a2 a3 a4)
  show ?thesis
    by (simp only: GetTrades, (rule exI)+, rule conjI,
        (intro allI, simp only: invoke.simps method_defs),
        auto split: sum.splits if_splits dest: time_range_errors)
next
  case (GetTradeInfo a1)
  show ?thesis
    by (simp only: GetTradeInfo, (rule exI)+, rule conjI,
        (intro allI, simp only: invoke.simps method_defs),
        auto split: sum.splits if_splits dest: time_range_errors)
qed (use assms in simp_all)

lemma generateApiKey_client:
  assumes "generateApiKey env c w = (r, c1, w1)"
  shows "c1 = c \<or> (\<exists>key. r = Inr key \<and> c1 = updateApiKey c key)"
  using assms by (auto simp add: generateApiKey_cases Let_def split: sum.splits; metis)

lemma authenticated_request_client:
  assumes "authenticated_request env v f p c w = (r, c', w')"
  shows "c' = c \<or> (\<exists>key. c' = updateApiKey c key)"
proof (cases "truthy (apiKey c)")
  case True
  with assms show ?thesis
    by (auto simp add: authenticated_request_held split: sum.splits)
next
  case False
  obtain r1 c1 w1 where g: "generateApiKey env c w = (r1, c1, w1)"
    by (cases "generateApiKey env c w") auto
  show ?thesis
  proof (cases r1)
    case (Inl e)
    with assms False g generateApiKey_client [OF g] show ?thesis
      by (auto simp add: authenticated_request_failed)
  next
    case (Inr key)
    with assms False g generateApiKey_client [OF g] show ?thesis
      by (auto simp add: authenticated_request_provisioned split: sum.splits)
  qed
qed

lemma public_request_eq:
  "public_request env url c w =
     (axios env (sent w) \<lparr>req_verb = GET, req_url = url, req_data = None, req_config = None\<rparr>, c,
      w\<lparr>sent := sent w @ [\<lparr>req_verb = GET, req_url = url, req_data = None, req_config = None\<rparr>]\<rparr>)"
  by (simp add: public_request_def axios_request_def)

lemma getOrderbooks_eq:
  "getOrderbooks env c w =
     (axios env (sent w) (own_request GET (baseUrl c @ ''/orderbooks'') None c), c,
      w\<lparr>sent := sent w @ [own_request GET (baseUrl c @ ''/orderbooks'') None c]\<rparr>)"
  by (simp add: getOrderbooks_def axios_request_def own_request_def)

lemmas public_defs =
  getOrderbookInfo_def getOrderbookDepth_def getOrderbookQuote_def getTradeHistory_def
  getExchangeStatus_def getSymbols_def getSymbolsInfo_def

lemma createApiKey_client:
  assumes "createApiKey env sig payload c w = (r, c1, w1)"
  shows "c1 = c \<or> (\<exists>key. r = Inr key \<and> c1 = updateApiKey c key)"
  using assms by (auto simp add: createApiKey_cases Let_def split: sum.splits; metis)

lemma invoke_client:
  assumes "invoke env k c w = (r, c', w')"
  shows "c' = c \<or> (\<exists>key. c' = updateApiKey c key)"
proof (cases "authenticated_call k")
  case True
  then obtain v f p where "\<And>c w. invoke env k c w = authenticated_request env v f p c w"
    using invoke_authenticated_shape [of k env] by blast
  with assms authenticated_request_client show ?thesis by metis
next
  case False
  with assms show ?thesis
    by (cases k)
       (auto simp add: public_defs public_request_eq getOrderbooks_eq
          dest: generateApiKey_client createApiKey_client)
qed

lemma updateApiKey_other_headers:
  "filter (\<lambda>kv. fst kv \<noteq> ''API-Key'') (headers (config (updateApiKey c key))) =
     filter (\<lambda>kv. fst kv \<noteq> ''API-Key'') (headers (config c))"
  by (simp add: updateApiKey_def filter_set_prop)

text \<open>
  Claim C9. Whatever public method is called on a client, with whatever arguments and
  whatever the libraries answer, the private key, the wallet, the address and the base
  URL of the client are afterwards what they were, and so is every header other than
  \<open>API-Key\<close>: only the credential is ever changed.
\<close>

theorem identity_unchanged:
  assumes "invoke env k c w = (r, c', w')"
  shows "privateKey c' = privateKey c \<and> wallet c' = wallet c \<and> address c' = address c
         \<and> baseUrl c' = baseUrl c
         \<and> filter (\<lambda>kv. fst kv \<noteq> ''API-Key'') (headers (config c')) =
             filter (\<lambda>kv. fst kv \<noteq> ''API-Key'') (headers (config c))"
  using invoke_client [OF assms]
  by (auto simp add: updateApiKey_fields updateApiKey_other_headers)

lemma invoke_header_invariant:
  assumes "API_Key_header c = Some (apiKey c)" "invoke env k c w = (r, c', w')"
  shows "API_Key_header c' = Some (apiKey c')"
  using invoke_client [OF assms(2)] assms(1)
  by (auto simp add: updateApiKey_fields updateApiKey_header)

lemma key_issuance_own_request:
  assumes "\<forall>b u. f b = Inr u \<longrightarrow> \<not> (v = POST \<and> u = b @ ''/apikeys'')" "f (baseUrl c) = Inr u"
  shows "\<not> key_issuance c (own_request v u p c1)"
  using assms by (auto simp add: key_issuance_def own_request_def)

lemma header_of_own_request: "header_of h (own_request v u p c) = map_of (headers (config c)) h"
  by (simp add: header_of_def own_request_def)

text \<open>With a key held, a method of a private endpoint makes its own request and nothing else.\<close>

lemma authenticated_request_held_facts:
  assumes safe: "\<forall>b u. f b = Inr u \<longrightarrow> \<not> (v = POST \<and> u = b @ ''/apikeys'')"
    and held: "truthy (apiKey c)"
    and run: "authenticated_request env v f p c w = (r, c', w')"
  shows "c' = c" and "clock_reads w' = clock_reads w"
    and "\<exists>xs. sent w' = sent w @ xs \<and> filter (key_issuance c) xs = []
           \<and> list_all (\<lambda>q. header_of ''API-Key'' q = API_Key_header c) xs"
  using run key_issuance_own_request [OF safe, of c _ p c]
  by (auto simp add: authenticated_request_held [OF held] header_of_own_request
        API_Key_header_def split: sum.splits)

text \<open>With no key held and a key issued, the issuance request comes first, then at most the own request.\<close>

lemma authenticated_request_provisioned_facts:
  assumes safe: "\<forall>b u. f b = Inr u \<longrightarrow> \<not> (v = POST \<and> u = b @ ''/apikeys'')"
    and absent: "\<not> truthy (apiKey c)"
    and gen: "generateApiKey env c w = (Inr key, c1, w1)"
    and run: "authenticated_request env v f p c w = (r, c', w')"
  shows "c' = updateApiKey c key"
    and "\<exists>sig xs. sent w' = sent w @ issuance_request c (Date_now env (clock_reads w)) sig # xs
           \<and> (xs = [] \<or> (\<exists>q. xs = [q] \<and> \<not> key_issuance c q
                              \<and> header_of ''API-Key'' q = Some key))"
proof -
  obtain sig where s: "sent w1 = sent w @ [issuance_request c (Date_now env (clock_reads w)) sig]"
    and c1: "c1 = updateApiKey c key"
    using generateApiKey_success [OF gen] by blast
  have b: "baseUrl c1 = baseUrl c" by (simp add: c1 updateApiKey_fields)
  have h: "map_of (headers (config c1)) ''API-Key'' = Some key"
    using updateApiKey_header [of c key] by (simp add: c1 API_Key_header_def)
  show "c' = updateApiKey c key"
    using run c1 by (auto simp add: authenticated_request_provisioned [OF absent gen] split: sum.splits)
  show "\<exists>sig xs. sent w' = sent w @ issuance_request c (Date_now env (clock_reads w)) sig # xs
           \<and> (xs = [] \<or> (\<exists>q. xs = [q] \<and> \<not> key_issuance c q
                              \<and> header_of ''API-Key'' q = Some key))"
  proof (cases "f (baseUrl c1)")
    case (Inl e)
    with run have "w' = w1"
      by (auto simp add: authenticated_request_provisioned [OF absent gen])
    with s show ?thesis by auto
  next
    case (Inr u)
    with run have "w' = w1\<lparr>sent := sent w1 @ [own_request v u p c1]\<rparr>"
      by (auto simp add: authenticated_request_provisioned [OF absent gen])
    then have "sent w' = sent w @ issuance_request c (Date_now env (clock_reads w)) sig
                 # [own_request v u p c1]"
      using s by simp
    moreover have "\<not> key_issuance c (own_request v u p c1)"
      using key_issuance_own_request [OF safe, of c u p c1] Inr b by simp
    moreover have "header_of ''API-Key'' (own_request v u p c1) = Some key"
      by (simp add: header_of_own_request h)
    ultimately show ?thesis by blast
  qed
qed

text \<open>
  The same two cases with the outcome in full: the own request is made unless building
  its URL throws.
\<close>

lemma authenticated_request_held_exact:
  assumes safe: "\<forall>b u. f b = Inr u \<longrightarrow> \<not> (v = POST \<and> u = b @ ''/apikeys'')"
    and errs: "\<forall>b e. f b = Inl e \<longrightarrow> T \<and> (e = TypeError \<or> e = RangeError)"
    and held: "truthy (apiKey c)"
    and run: "authenticated_request env v f p c w = (r, c', w')"
  shows "c' = c \<and>
     ((\<exists>q. new_requests w w' = [q] \<and> \<not> key_issuance c q
            \<and> header_of ''API-Key'' q = API_Key_header c)
      \<or> (new_requests w w' = [] \<and> T \<and> (r = Inl TypeError \<or> r = Inl RangeError)))"
proof (cases "f (baseUrl c)")
  case (Inl e)
  with run have "r = Inl e" "c' = c" "w' = w"
    by (auto simp add: authenticated_request_held [OF held])
  moreover from errs Inl have "T \<and> (e = TypeError \<or> e = RangeError)" by blast
  ultimately show ?thesis by (auto simp add: new_requests_def)
next
  case (Inr u)
  with run have "c' = c" "w' = w\<lparr>sent := sent w @ [own_request v u p c]\<rparr>"
    by (auto simp add: authenticated_request_held [OF held])
  then have "c' = c" "new_requests w w' = [own_request v u p c]"
    by (simp_all add: new_requests_def)
  moreover have "\<not> key_issuance c (own_request v u p c)"
    using key_issuance_own_request [OF safe Inr] .
  moreover have "header_of ''API-Key'' (own_request v u p c) = API_Key_header c"
    by (simp add: header_of_own_request API_Key_header_def)
  ultimately show ?thesis by blast
qed

lemma authenticated_request_provisioned_exact:
  assumes safe: "\<forall>b u. f b = Inr u \<longrightarrow> \<not> (v = POST \<and> u = b @ ''/apikeys'')"
    and errs: "\<forall>b e. f b = Inl e \<longrightarrow> T \<and> (e = TypeError \<or> e = RangeError)"
    and absent: "\<not> truthy (apiKey c)"
    and gen: "generateApiKey env c w = (Inr key, c1, w1)"
    and run: "authenticated_request env v f p c w = (r, c', w')"
  shows "\<exists>i. key_issuance c i \<and>
     ((\<exists>q. new_requests w w' = [i, q] \<and> \<not> key_issuance c q
            \<and> header_of ''API-Key'' q = Some key)
      \<or> (new_requests w w' = [i] \<and> T \<and> (r = Inl TypeError \<or> r = Inl RangeError)))"
proof -
  obtain sig where s: "sent w1 = sent w @ [issuance_request c (Date_now env (clock_reads w)) sig]"
    and c1: "c1 = updateApiKey c key"
    using generateApiKey_success [OF gen] by blast
  let ?i = "issuance_request c (Date_now env (clock_reads w)) sig"
  have b: "baseUrl c1 = baseUrl c" by (simp add: c1 updateApiKey_fields)
  have h: "map_of (headers (config c1)) ''API-Key'' = Some key"
    using updateApiKey_header [of c key] by (simp add: c1 API_Key_header_def)
  have ki: "key_issuance c ?i" by (rule key_issuance_issuance_request)
  show ?thesis
  proof (cases "f (baseUrl c1)")
    case (Inl e)
    with run have "r = Inl e" "w' = w1"
      by (auto simp add: authenticated_request_provisioned [OF absent gen])
    moreover from errs Inl have "T \<and> (e = TypeError \<or> e = RangeError)" by blast
    ultimately have "new_requests w w' = [?i] \<and> T \<and> (r = Inl TypeError \<or> r = Inl RangeError)"
      using s by (auto simp add: new_requests_def)
    with ki show ?thesis by blast
  next
    case (Inr u)
    with run have "w' = w1\<lparr>sent := sent w1 @ [own_request v u p c1]\<rparr>"
      by (auto simp add: authenticated_request_provisioned [OF absent gen])
    then have "new_requests w w' = [?i, own_request v u p c1]"
      using s by (simp add: new_requests_def)
    moreover have "\<not> key_issuance c (own_request v u p c1)"
      using key_issuance_own_request [OF safe, of c u p c1] Inr b by simp
    moreover have "header_of ''API-Key'' (own_request v u p c1) = Some key"
      by (simp add: header_of_own_request h)
    ultimately show ?thesis using ki by blast
  qed
qed

lemma invoke_held:
  assumes "truthy (apiKey c)" "\<not> replaces_credential k" "invoke env k c w = (r, c', w')"
  shows "c' = c \<and> (\<exists>xs. sent w' = sent w @ xs \<and> filter (key_issuance c) xs = [])"
proof (cases "authenticated_call k")
  case True
  then obtain v f p where i: "\<And>c w. invoke env k c w = authenticated_request env v f p c w"
    and safe: "\<forall>b u. f b = Inr u \<longrightarrow> \<not> (v = POST \<and> u = b @ ''/apikeys'')"
    using invoke_authenticated_shape [of k env] by blast
  from assms(3) have "authenticated_request env v f p c w = (r, c', w')" by (simp add: i)
  from authenticated_request_held_facts [OF safe assms(1) this] show ?thesis by blast
next
  case False
  with assms show ?thesis
    by (cases k)
       (auto simp add: public_defs public_request_eq getOrderbooks_eq key_issuance_def
          own_request_def)
qed

lemma run_held:
  assumes "truthy (apiKey c)" "list_all (\<lambda>j. \<not> replaces_credential j) ks"
    "run env ks c w = (c2, w2)"
  shows "c2 = c \<and> (\<exists>xs. sent w2 = sent w @ xs \<and> filter (key_issuance c) xs = [])"
  using assms
proof (induction ks arbitrary: w)
  case Nil
  then show ?case by simp
next
  case (Cons k ks)
  obtain r c1 w1 where i: "invoke env k c w = (r, c1, w1)"
    by (cases "invoke env k c w") auto
  from Cons.prems have nr: "\<not> replaces_credential k" by simp
  from invoke_held [OF Cons.prems(1) nr i] obtain xs where
    c1: "c1 = c" and xs: "sent w1 = sent w @ xs" "filter (key_issuance c) xs = []" by blast
  from Cons.prems i c1 have "run env ks c w1 = (c2, w2)" by simp
  from Cons.IH [OF Cons.prems(1) _ this] Cons.prems(2) obtain ys where
    "c2 = c" "sent w2 = sent w1 @ ys" "filter (key_issuance c) ys = []" by auto
  with xs show ?case by auto
qed

lemma JSON_escape_plain: "is_digit c \<or> c = CHR ''-'' \<Longrightarrow> JSON_escape c = [c]"
  by (auto simp add: JSON_escape_def is_digit_def Let_def)

lemma nat_digits_all_digits: "list_all is_digit (nat_digits n)"
proof (induction n rule: nat_digits.induct)
  case (1 n)
  show ?case
  proof (cases "n < 10")
    case True
    then show ?thesis by (subst nat_digits.simps) (simp add: is_digit_digit_char)
  next
    case False
    with "1.IH" show ?thesis by (subst nat_digits.simps) (simp add: is_digit_digit_char)
  qed
qed

lemma concat_map_JSON_escape:
  "list_all (\<lambda>c. is_digit c \<or> c = CHR ''-'') s \<Longrightarrow> concat (map JSON_escape s) = s"
  by (induction s) (simp_all add: JSON_escape_plain)

lemma Number_toString_plain: "list_all (\<lambda>c. is_digit c \<or> c = CHR ''-'') (Number_toString i)"
  using nat_digits_all_digits [of "nat i"] nat_digits_all_digits [of "nat (- i)"]
  by (auto simp add: Number_toString_def list_all_iff)

lemma JSON_quote_Number_toString:
  "JSON_quote (Number_toString i) = CHR 0x22 # Number_toString i @ [CHR 0x22]"
  by (simp add: JSON_quote_def concat_map_JSON_escape [OF Number_toString_plain])

lemma JSON_quote_nonce: "JSON_quote ''nonce'' = CHR 0x22 # ''nonce'' @ [CHR 0x22]"
  by (simp add: JSON_quote_def JSON_escape_def)

lemma JSON_stringify_nonce_payload: "JSON_stringify (nonce_payload now) = Some (nonce_text now)"
  by (simp add: nonce_payload_def nonce_text_def JSON_quote_Number_toString JSON_quote_nonce)

text \<open>
  Claim C2. \<open>generateApiKey\<close> builds the payload \<open>{nonce: t}\<close>, where \<open>t\<close> is the decimal text
  of the current clock reading; its JSON text, \<open>{"nonce":"t"}\<close>, is what the wallet signs.
  When the wallet returns a signature, exactly one request is made: a POST to
  \<open>/apikeys\<close> with that payload as its body and the signature in the header \<open>api-sig\<close>.
  When the response carries a key, the key is stored by \<open>updateApiKey\<close> (in \<open>apiKey\<close> and
  in the \<open>API-Key\<close> header) and is the value returned.
\<close>

theorem generateApiKey_flow:
  assumes "generateApiKey env c w = (r, c', w')"
    and "signMessage env (wallet c) (Some (nonce_text (Date_now env (clock_reads w)))) = Inr sig"
  shows "JSON_stringify (nonce_payload (Date_now env (clock_reads w)))
           = Some (nonce_text (Date_now env (clock_reads w)))
       \<and> new_requests w w' = [issuance_request c (Date_now env (clock_reads w)) sig]
       \<and> (\<forall>d key. axios env (sent w) (issuance_request c (Date_now env (clock_reads w)) sig) = Inr d
                    \<and> get_apikey d = Inr key
              \<longrightarrow> r = Inr key \<and> c' = updateApiKey c key
                  \<and> apiKey c' = key \<and> API_Key_header c' = Some key)"
  using assms
  by (auto simp add: generateApiKey_cases JSON_stringify_nonce_payload Let_def new_requests_def
        updateApiKey_fields updateApiKey_header split: sum.splits)

lemma key_issuance_baseUrl: "baseUrl c' = baseUrl c \<Longrightarrow> key_issuance c' = key_issuance c"
  by (simp add: key_issuance_def fun_eq_iff)

text \<open>
  Claim C1, as amended. Let any of the fourteen methods of private endpoints be called. If
  the client holds no credential (the stored key is falsy) and key issuance returns, then
  the requests of the call are the key-issuance request first and after it at most one
  request, the method's own, which is not a key issuance; afterwards the stored key is
  the \<open>apikey\<close> value of the issuance response, whatever it is. When that value is a
  credential (a truthy value), it stays the stored key, with no further key issuance,
  through every later sequence of calls that do not replace the credential themselves
  (\<open>updateApiKey\<close>, \<open>generateApiKey\<close>, \<open>createApiKey\<close>). If the client holds a credential,
  the call makes no key-issuance request and leaves the key as it is.
\<close>

theorem lazy_provisioning:
  assumes "authenticated_call k" and "invoke env k c w = (r, c', w')"
  shows "(\<not> truthy (apiKey c) \<and> generateApiKey env c w = (Inr key, c1, w1) \<longrightarrow>
            (map (key_issuance c) (new_requests w w') = [True]
               \<or> map (key_issuance c) (new_requests w w') = [True, False])
            \<and> apiKey c' = key
            \<and> (truthy key \<longrightarrow>
                 (\<forall>ks c2 w2. list_all (\<lambda>j. \<not> replaces_credential j) ks
                      \<and> run env ks c' w' = (c2, w2)
                    \<longrightarrow> apiKey c2 = key \<and> filter (key_issuance c) (new_requests w' w2) = [])))
       \<and> (truthy (apiKey c) \<longrightarrow>
            filter (key_issuance c) (new_requests w w') = [] \<and> apiKey c' = apiKey c)"
proof -
  obtain v f p where i: "\<And>c w. invoke env k c w = authenticated_request env v f p c w"
    and safe: "\<forall>b u. f b = Inr u \<longrightarrow> \<not> (v = POST \<and> u = b @ ''/apikeys'')"
    using invoke_authenticated_shape [OF assms(1), of env] by blast
  have a: "authenticated_request env v f p c w = (r, c', w')" using assms(2) by (simp add: i)
  have held: "filter (key_issuance c) (new_requests w w') = [] \<and> apiKey c' = apiKey c"
    if "truthy (apiKey c)"
    using authenticated_request_held_facts [OF safe that a]
    by (auto simp add: new_requests_def)
  have prov: "(map (key_issuance c) (new_requests w w') = [True]
               \<or> map (key_issuance c) (new_requests w w') = [True, False])
            \<and> apiKey c' = key
            \<and> (truthy key \<longrightarrow>
                 (\<forall>ks c2 w2. list_all (\<lambda>j. \<not> replaces_credential j) ks
                      \<and> run env ks c' w' = (c2, w2)
                    \<longrightarrow> apiKey c2 = key \<and> filter (key_issuance c) (new_requests w' w2) = []))"
    if n: "\<not> truthy (apiKey c)" and g: "generateApiKey env c w = (Inr key, c1, w1)"
  proof -
    have c': "c' = updateApiKey c key"
      by (rule authenticated_request_provisioned_facts(1) [OF safe n g a])
    obtain sig xs where
      s: "sent w' = sent w @ issuance_request c (Date_now env (clock_reads w)) sig # xs"
      and xs: "xs = [] \<or> (\<exists>q. xs = [q] \<and> \<not> key_issuance c q
                              \<and> header_of ''API-Key'' q = Some key)"
      using authenticated_request_provisioned_facts(2) [OF safe n g a] by blast
    have nr: "new_requests w w' = issuance_request c (Date_now env (clock_reads w)) sig # xs"
      using s by (simp add: new_requests_def)
    have m: "map (key_issuance c) (new_requests w w') = [True]
               \<or> map (key_issuance c) (new_requests w w') = [True, False]"
      using xs by (auto simp add: nr key_issuance_issuance_request)
    have k': "apiKey c' = key" by (simp add: c' updateApiKey_fields)
    have ki: "key_issuance c' = key_issuance c"
      by (rule key_issuance_baseUrl) (simp add: c' updateApiKey_fields)
    have later: "apiKey c2 = key \<and> filter (key_issuance c) (new_requests w' w2) = []"
      if t: "truthy key" and "list_all (\<lambda>j. \<not> replaces_credential j) ks"
        "run env ks c' w' = (c2, w2)"
      for ks c2 w2
      using run_held [OF _ that(2,3), unfolded k', OF t] k'
      by (auto simp add: new_requests_def ki)
    from m k' later show ?thesis by blast
  qed
  from held prov show ?thesis by blast
qed

lemma ensureApiKey_fields:
  assumes "ensureApiKey env c w = (r, c1, w1)"
  shows "baseUrl c1 = baseUrl c"
  using assms generateApiKey_client [of env c w]
  by (auto simp add: ensureApiKey_def updateApiKey_fields split: if_splits sum.splits prod.splits)

lemma authenticated_request_after_key:
  assumes "ensureApiKey env c w = (Inr u, c1, w1)"
    and "authenticated_request env v f p c w = (r, c', w')"
  shows "c' = c1"
    and "f (baseUrl c) = Inl e \<Longrightarrow> r = Inl e \<and> new_requests w1 w' = []"
    and "f (baseUrl c) = Inr url \<Longrightarrow> new_requests w1 w' = [own_request v url p c1]"
  using assms ensureApiKey_fields [OF assms(1)]
  by (auto simp add: authenticated_request_def axios_request_def own_request_def
        new_requests_def split: sum.splits)

lemma authenticated_request_key_failed:
  assumes "ensureApiKey env c w = (Inl e, c1, w1)"
    and "authenticated_request env v f p c w = (r, c', w')"
  shows "r = Inl e \<and> c' = c1 \<and> new_requests w1 w' = []"
  using assms by (auto simp add: authenticated_request_def new_requests_def)

lemma ensureApiKey_held:
  "truthy (apiKey c) \<Longrightarrow> ensureApiKey env c w = (Inr (), c, w)"
  by (simp add: ensureApiKey_def)


text \<open>
  Claim C8, as amended. Every call of \<open>getDeposits\<close> starts with the key step, which does
  nothing when a key is held; when the key step fails, the call fails with its error and
  makes no request of its own. After the key step, with all three parameters present
  (truthy) and both times convertible, the one request is a GET of \<open>/deposits/\<close> with the
  query \<open>end\<close>, \<open>start\<close> (the converted times) and \<open>symbol\<close>, made with the config of the
  client; with all three present and a time on which \<open>convertToISO8601\<close> throws (the end
  time is converted first), the call throws that error and makes no request; with all of
  them omitted, or only some of them present, the one request is a GET of the unfiltered
  \<open>/deposits\<close>.
\<close>

theorem getDeposits_endpoint:
  assumes "getDeposits env startTime endTime symbol c w = (r, c', w')"
    and "ensureApiKey env c w = (r1, c1, w1)"
  shows "c' = c1
       \<and> (truthy (apiKey c) \<longrightarrow> r1 = Inr () \<and> c1 = c \<and> w1 = w)
       \<and> (\<forall>e. r1 = Inl e \<longrightarrow> r = Inl e \<and> new_requests w1 w' = [])
       \<and> (\<forall>u. r1 = Inr u \<longrightarrow>
            (truthy startTime \<and> truthy endTime \<and> present symbol \<longrightarrow>
               (\<forall>en st. convertToISO8601 env endTime = Inr en
                      \<and> convertToISO8601 env startTime = Inr st \<longrightarrow>
                  new_requests w1 w' =
                    [own_request GET (baseUrl c @ ''/deposits/?end='' @ en @ ''&start='' @ st
                       @ ''&symbol='' @ template symbol) None c1])
               \<and> (\<forall>e. convertToISO8601 env endTime = Inl e \<longrightarrow>
                     r = Inl e \<and> new_requests w1 w' = [])
               \<and> (\<forall>en e. convertToISO8601 env endTime = Inr en
                      \<and> convertToISO8601 env startTime = Inl e \<longrightarrow>
                     r = Inl e \<and> new_requests w1 w' = []))
            \<and> (\<not> (truthy startTime \<and> truthy endTime \<and> present symbol) \<longrightarrow>
                 new_requests w1 w' = [own_request GET (baseUrl c @ ''/deposits'') None c1]))"
proof -
  note a = assms(1) [unfolded getDeposits_def]
  have held: "r1 = Inr () \<and> c1 = c \<and> w1 = w" if "truthy (apiKey c)"
    using ensureApiKey_held [OF that, of env w] assms(2) by simp
  show ?thesis
  proof (cases r1)
    case (Inl e)
    from authenticated_request_key_failed [OF assms(2) [unfolded Inl] a] held Inl
    show ?thesis by auto
  next
    case (Inr u)
    note k = assms(2) [unfolded Inr]
    from authenticated_request_after_key(1) [OF k a] have c: "c' = c1" .
    from authenticated_request_after_key(2) [OF k a] authenticated_request_after_key(3) [OF k a]
      held c Inr
    show ?thesis by (auto simp add: time_range_def split: sum.splits)
  qed
qed

lemma generateApiKey_requests:
  assumes "generateApiKey env c w = (r, c1, w1)"
  shows "list_all (key_issuance c) (new_requests w w1)"
  using assms
  by (auto simp add: generateApiKey_cases Let_def new_requests_def key_issuance_issuance_request
        split: sum.splits)

lemma authenticated_request_carries_key:
  assumes safe: "\<forall>b u. f b = Inr u \<longrightarrow> \<not> (v = POST \<and> u = b @ ''/apikeys'')"
    and inv: "API_Key_header c = Some (apiKey c)"
    and run: "authenticated_request env v f p c w = (r, c', w')"
  shows "list_all (\<lambda>q. key_issuance c q \<or> header_of ''API-Key'' q = Some (apiKey c'))
           (new_requests w w')"
proof (cases "truthy (apiKey c)")
  case True
  from authenticated_request_held_facts [OF safe True run] inv show ?thesis
    by (auto simp add: new_requests_def list_all_iff)
next
  case False
  obtain r1 c1 w1 where g: "generateApiKey env c w = (r1, c1, w1)"
    by (cases "generateApiKey env c w") auto
  show ?thesis
  proof (cases r1)
    case (Inl e)
    with run False g have "w' = w1"
      by (simp add: authenticated_request_failed)
    with generateApiKey_requests [OF g] show ?thesis by (auto simp add: list_all_iff)
  next
    case (Inr key)
    note g' = g [unfolded Inr]
    from authenticated_request_provisioned_facts [OF safe False g' run]
    show ?thesis
      by (auto simp add: new_requests_def updateApiKey_fields key_issuance_issuance_request)
  qed
qed

text \<open>
  Claim C7. The stored key and the value of the \<open>API-Key\<close> header of the client are equal
  after construction (both absent when no key was given) and remain equal after every
  operation. Key provisioning stores its key by \<open>updateApiKey\<close>. When a method of a private
  endpoint is called with no key held and a key \<open>K\<close> is issued, the requests of the call
  are the key issuance and then the method's own request, which carries the header
  \<open>API-Key: K\<close>; the own request is missing only when the date conversion throws. After
  \<open>updateApiKey(X)\<close> with a credential \<open>X\<close> (a truthy value; the key stored by provisioning
  is such an \<open>X\<close>), and after any sequence of calls that do not replace the credential,
  the stored key is still \<open>X\<close> and a method of a private endpoint makes exactly one
  request, which carries the header \<open>API-Key: X\<close>; it makes none only when the date
  conversion throws. Whatever the key is, every request of a method of a private
  endpoint, the key issuance apart, carries the key that is stored when the call returns.
\<close>

theorem credential_header_invariant:
  shows "(Cax_new env pk key = Inr c0 \<longrightarrow> apiKey c0 = key \<and> API_Key_header c0 = Some key)
       \<and> (API_Key_header c = Some (apiKey c) \<and> invoke env k c w = (r, c', w') \<longrightarrow>
            API_Key_header c' = Some (apiKey c'))
       \<and> (generateApiKey env c w = (Inr K, c1, w1) \<longrightarrow> c1 = updateApiKey c K)
       \<and> (\<not> truthy (apiKey c) \<and> authenticated_call k \<and> invoke env k c w = (r, c', w')
            \<and> generateApiKey env c w = (Inr K, c1, w1) \<longrightarrow>
            c' = updateApiKey c K
            \<and> (\<exists>i. key_issuance c i
                 \<and> ((\<exists>q. new_requests w w' = [i, q] \<and> \<not> key_issuance c q
                          \<and> header_of ''API-Key'' q = Some K)
                    \<or> (new_requests w w' = [i] \<and> takes_time_range k
                         \<and> (r = Inl TypeError \<or> r = Inl RangeError)))))
       \<and> (truthy X \<and> list_all (\<lambda>j. \<not> replaces_credential j) ks
            \<and> run env ks (updateApiKey c X) w = (c2, w2)
            \<and> authenticated_call j \<and> invoke env j c2 w2 = (r2, c3, w3) \<longrightarrow>
            apiKey c3 = X
            \<and> ((\<exists>q. new_requests w2 w3 = [q] \<and> \<not> key_issuance c q
                     \<and> header_of ''API-Key'' q = Some X)
               \<or> (new_requests w2 w3 = [] \<and> takes_time_range j
                    \<and> (r2 = Inl TypeError \<or> r2 = Inl RangeError))))
       \<and> (API_Key_header c = Some (apiKey c) \<and> authenticated_call k
            \<and> invoke env k c w = (r, c', w') \<longrightarrow>
            list_all (\<lambda>q. key_issuance c q \<or> header_of ''API-Key'' q = Some (apiKey c'))
              (new_requests w w'))"
proof -
  have p1: "apiKey c0 = key \<and> API_Key_header c0 = Some key" if "Cax_new env pk key = Inr c0"
    using that by (auto simp add: Cax_new_def API_Key_header_def split: sum.splits)
  have p3: "c1 = updateApiKey c K" if "generateApiKey env c w = (Inr K, c1, w1)"
    using generateApiKey_success [OF that] by blast
  have p4: "c' = updateApiKey c K
            \<and> (\<exists>i. key_issuance c i
                 \<and> ((\<exists>q. new_requests w w' = [i, q] \<and> \<not> key_issuance c q
                          \<and> header_of ''API-Key'' q = Some K)
                    \<or> (new_requests w w' = [i] \<and> takes_time_range k
                         \<and> (r = Inl TypeError \<or> r = Inl RangeError))))"
    if n: "\<not> truthy (apiKey c)" and k: "authenticated_call k"
      and i: "invoke env k c w = (r, c', w')" and g: "generateApiKey env c w = (Inr K, c1, w1)"
  proof -
    obtain v f p where sh: "\<And>c w. invoke env k c w = authenticated_request env v f p c w"
      and safe: "\<forall>b u. f b = Inr u \<longrightarrow> \<not> (v = POST \<and> u = b @ ''/apikeys'')"
      and errs: "\<forall>b e. f b = Inl e \<longrightarrow> takes_time_range k \<and> (e = TypeError \<or> e = RangeError)"
      using invoke_authenticated_errors [OF k, of env] by blast
    have a: "authenticated_request env v f p c w = (r, c', w')" using i by (simp add: sh)
    from authenticated_request_provisioned_facts(1) [OF safe n g a]
      authenticated_request_provisioned_exact [OF safe errs n g a]
    show ?thesis by simp
  qed
  have p5: "apiKey c3 = X
            \<and> ((\<exists>q. new_requests w2 w3 = [q] \<and> \<not> key_issuance c q
                     \<and> header_of ''API-Key'' q = Some X)
               \<or> (new_requests w2 w3 = [] \<and> takes_time_range j
                    \<and> (r2 = Inl TypeError \<or> r2 = Inl RangeError)))"
    if t: "truthy X" and ks: "list_all (\<lambda>j. \<not> replaces_credential j) ks"
      and r: "run env ks (updateApiKey c X) w = (c2, w2)"
      and j: "authenticated_call j" and ij: "invoke env j c2 w2 = (r2, c3, w3)"
  proof -
    have held: "truthy (apiKey (updateApiKey c X))" using t by (simp add: updateApiKey_fields)
    have c2: "c2 = updateApiKey c X" using run_held [OF held ks r] by blast
    obtain v f p where sh: "\<And>c w. invoke env j c w = authenticated_request env v f p c w"
      and safe: "\<forall>b u. f b = Inr u \<longrightarrow> \<not> (v = POST \<and> u = b @ ''/apikeys'')"
      and errs: "\<forall>b e. f b = Inl e \<longrightarrow> takes_time_range j \<and> (e = TypeError \<or> e = RangeError)"
      using invoke_authenticated_errors [OF j, of env] by blast
    have a: "authenticated_request env v f p c2 w2 = (r2, c3, w3)" using ij by (simp add: sh)
    have h2: "truthy (apiKey c2)" using held c2 by simp
    have ki: "key_issuance c2 = key_issuance c"
      by (rule key_issuance_baseUrl) (simp add: c2 updateApiKey_fields)
    from authenticated_request_held_exact [OF safe errs h2 a]
    show ?thesis by (simp add: ki [unfolded c2] c2 updateApiKey_header updateApiKey_fields)
  qed
  have p6: "list_all (\<lambda>q. key_issuance c q \<or> header_of ''API-Key'' q = Some (apiKey c'))
              (new_requests w w')"
    if h: "API_Key_header c = Some (apiKey c)" and k: "authenticated_call k"
      and i: "invoke env k c w = (r, c', w')"
  proof -
    obtain v f p where sh: "\<And>c w. invoke env k c w = authenticated_request env v f p c w"
      and safe: "\<forall>b u. f b = Inr u \<longrightarrow> \<not> (v = POST \<and> u = b @ ''/apikeys'')"
      using invoke_authenticated_shape [OF k, of env] by blast
    have a: "authenticated_request env v f p c w = (r, c', w')" using i by (simp add: sh)
    from authenticated_request_carries_key [OF safe h a] show ?thesis .
  qed
  from p1 p3 p4 p5 p6 invoke_header_invariant show ?thesis by blast
qed

text \<open>
  Claim C6. \<open>getOrderbooks\<close> does not provide a key, but its request is made with
  \<open>this.config\<close>: on a client that holds the key \<open>K\<close>, the one request it makes carries
  the header \<open>API-Key: K\<close>, which the claim denies. The other methods of public endpoints
  pass no config.
\<close>

theorem getOrderbooks_sends_the_key:
  "new_requests demo_world (snd (snd (getOrderbooks demo_env (demo_client (JStr ''K'')) demo_world)))
     = [\<lparr>req_verb = GET, req_url = ''https://cax.piccadilly.autonity.org/api/orderbooks'',
         req_data = None, req_config = Some \<lparr>headers = [(''API-Key'', JStr ''K'')]\<rparr>\<rparr>]
   \<and> list_all (\<lambda>q. header_of ''API-Key'' q = Some (JStr ''K''))
        (new_requests demo_world
           (snd (snd (getOrderbooks demo_env (demo_client (JStr ''K'')) demo_world))))
   \<and> clock_reads (snd (snd (getOrderbooks demo_env (demo_client (JStr ''K'')) demo_world))) = 0"
  by (simp add: getOrderbooks_eq own_request_def new_requests_def demo_world_def demo_client_def
      header_of_def)

text \<open>
  Claim C10. On a client whose stored key is the empty string, a method of a private
  endpoint runs \<open>generateApiKey\<close> first: the client after the call is the client after
  \<open>generateApiKey\<close>, the clock has been read once, the requests of \<open>generateApiKey\<close> (the
  key-issuance request, when the wallet has signed) come first, and after them the call
  makes at most one request, which is not a key issuance.
\<close>

theorem empty_key_is_absent:
  assumes "authenticated_call k" "apiKey c = JStr []" "invoke env k c w = (r, c', w')"
    and "generateApiKey env c w = (r1, c1, w1)"
  shows "c' = c1 \<and> clock_reads w' = Suc (clock_reads w)
       \<and> take (length (sent w1)) (sent w') = sent w1
       \<and> length (new_requests w1 w') \<le> 1
       \<and> list_all (\<lambda>q. \<not> key_issuance c q) (new_requests w1 w')
       \<and> (\<forall>sig. signMessage env (wallet c) (Some (nonce_text (Date_now env (clock_reads w)))) = Inr sig
             \<longrightarrow> new_requests w w1 = [issuance_request c (Date_now env (clock_reads w)) sig])"
proof -
  obtain v f p where i: "\<And>c w. invoke env k c w = authenticated_request env v f p c w"
    and safe: "\<forall>b u. f b = Inr u \<longrightarrow> \<not> (v = POST \<and> u = b @ ''/apikeys'')"
    using invoke_authenticated_shape [OF assms(1), of env] by blast
  have a: "authenticated_request env v f p c w = (r, c', w')" using assms(3) by (simp add: i)
  have n: "\<not> truthy (apiKey c)" using assms(2) by simp
  have g: "clock_reads w1 = Suc (clock_reads w)"
    "\<forall>sig. signMessage env (wallet c) (Some (nonce_text (Date_now env (clock_reads w)))) = Inr sig
             \<longrightarrow> new_requests w w1 = [issuance_request c (Date_now env (clock_reads w)) sig]"
    using assms(4)
    by (auto simp add: generateApiKey_cases JSON_stringify_nonce_payload Let_def new_requests_def
          split: sum.splits)
  have b: "baseUrl c1 = baseUrl c"
    using generateApiKey_client [OF assms(4)] by (auto simp add: updateApiKey_fields)
  have m: "c' = c1 \<and> clock_reads w' = clock_reads w1
       \<and> take (length (sent w1)) (sent w') = sent w1
       \<and> length (new_requests w1 w') \<le> 1
       \<and> list_all (\<lambda>q. \<not> key_issuance c q) (new_requests w1 w')"
  proof (cases r1)
    case (Inl e)
    with a n assms(4) show ?thesis
      by (auto simp add: authenticated_request_failed new_requests_def)
  next
    case (Inr key)
    with a n assms(4) key_issuance_own_request [OF safe, of c _ p c1] b show ?thesis
      by (auto simp add: authenticated_request_provisioned new_requests_def split: sum.splits)
  qed
  with g show ?thesis by simp
qed

lemma demo_generate:
  "generateApiKey demo_env (demo_client k0) demo_world =
     (Inr (JStr ''K1''), updateApiKey (demo_client k0) (JStr ''K1''),
      \<lparr>sent = [issuance_request (demo_client k0) 1700000000000
                 (''signed:'' @ nonce_text 1700000000000)],
       clock_reads = Suc 0\<rparr>)"
  by (simp add: generateApiKey_cases JSON_stringify_nonce_payload demo_env_def
      issuance_request_def demo_client_def demo_world_def get_apikey_def Let_def)

lemma nat_digits_small: "n < 10 \<Longrightarrow> nat_digits n = [digit_char n]"
  by (simp add: nat_digits.simps)

lemma nat_digits_large:
  "10 \<le> n \<Longrightarrow> nat_digits n = nat_digits (n div 10) @ [digit_char (n mod 10)]"
  by (subst nat_digits.simps) simp

lemma nonce_text_demo:
  "nonce_text 1700000000000 =
     [CHR ''{'', CHR 0x22] @ ''nonce'' @ [CHR 0x22, CHR '':'', CHR 0x22] @ ''1700000000000''
       @ [CHR 0x22, CHR ''}'']"
  by (simp add: nonce_text_def Number_toString_def nat_digits_small nat_digits_large
      digit_char_eval)


lemma demo_convert:
  "convertToISO8601 demo_env (JStr ''2024-01-02-03:04:05'') = Inr ''2024-01-02T03:04:05.000Z''"
  "convertToISO8601 demo_env (JStr ''2024-01-05-00:00:00'') = Inr ''2024-01-05T00:00:00.000Z''"
  using convertToISO8601_pattern_utc [of 2024 1 2 3 4 5 demo_env]
    convertToISO8601_pattern_utc [of 2024 1 5 0 0 0 demo_env]
  by (simp_all add: date_time_string_def pad_digits_2 pad_digits_4 digit_char_eval DaysInMonth_def
      demo_fields)

text \<open>
  A run of \<open>generateApiKey\<close> on a client with no key, at the clock reading 1700000000000.
\<close>

theorem generateApiKey_flow_witness:
  "JSON_stringify (nonce_payload 1700000000000) =
     Some ([CHR ''{'', CHR 0x22] @ ''nonce'' @ [CHR 0x22, CHR '':'', CHR 0x22] @ ''1700000000000''
             @ [CHR 0x22, CHR ''}''])
   \<and> new_requests demo_world
        (snd (snd (generateApiKey demo_env (demo_client JUndefined) demo_world)))
       = [issuance_request (demo_client JUndefined) 1700000000000
            (''signed:'' @ nonce_text 1700000000000)]
   \<and> fst (generateApiKey demo_env (demo_client JUndefined) demo_world) = Inr (JStr ''K1'')
   \<and> apiKey (fst (snd (generateApiKey demo_env (demo_client JUndefined) demo_world)))
       = JStr ''K1''
   \<and> API_Key_header (fst (snd (generateApiKey demo_env (demo_client JUndefined) demo_world)))
       = Some (JStr ''K1'')"
proof -
  let ?c = "demo_client JUndefined"
  let ?sig = "''signed:'' @ nonce_text 1700000000000"
  have n: "Date_now demo_env (clock_reads demo_world) = 1700000000000"
    by (simp add: demo_env_def)
  have s: "signMessage demo_env (wallet ?c)
             (Some (nonce_text (Date_now demo_env (clock_reads demo_world)))) = Inr ?sig"
    by (simp add: demo_env_def)
  have a: "axios demo_env (sent demo_world) (issuance_request ?c 1700000000000 ?sig)
             = Inr (JObj [(''apikey'', JStr ''K1'')])"
    by (simp add: demo_env_def issuance_request_def demo_client_def)
  have k: "get_apikey (JObj [(''apikey'', JStr ''K1'')]) = Inr (JStr ''K1'')"
    by (simp add: get_apikey_def)
  from generateApiKey_flow [OF demo_generate [of JUndefined] s] a k nonce_text_demo
  show ?thesis
    by (simp add: n demo_generate)
qed

section \<open>Concrete runs of the client\<close>

lemma demo_truthy:
  "\<not> truthy (apiKey (demo_client JUndefined))" "\<not> truthy (apiKey (demo_client (JStr [])))"
  "truthy (apiKey (demo_client (JStr ''K'')))" "apiKey (demo_client k0) = k0"
  "baseUrl (demo_client k0) = ''https://cax.piccadilly.autonity.org/api''"
  by (simp_all add: demo_client_def)

lemma demo_axios_get:
  "axios demo_env log (own_request GET u p c) = Inr (JObj [(''ok'', JBool True)])"
  by (simp add: demo_env_def own_request_def)

lemma demo_getBalances_absent:
  assumes "\<not> truthy k0"
  shows "invoke demo_env (GetBalances None) (demo_client k0) demo_world =
     (Inr (JObj [(''ok'', JBool True)]), updateApiKey (demo_client k0) (JStr ''K1''),
      \<lparr>sent = [issuance_request (demo_client k0) 1700000000000
                 (''signed:'' @ nonce_text 1700000000000),
               own_request GET ''https://cax.piccadilly.autonity.org/api/balances'' None
                 (updateApiKey (demo_client k0) (JStr ''K1''))],
       clock_reads = Suc 0\<rparr>)"
  using assms
  by (simp add: getBalances_def authenticated_request_provisioned [OF _ demo_generate]
      demo_truthy demo_axios_get updateApiKey_fields present_def arg_value_def)

lemma demo_getBalances_held:
  assumes "truthy k0"
  shows "invoke demo_env (GetBalances None) (demo_client k0) w =
     (Inr (JObj [(''ok'', JBool True)]), demo_client k0,
      w\<lparr>sent := sent w @ [own_request GET ''https://cax.piccadilly.autonity.org/api/balances'' None
                 (demo_client k0)]\<rparr>)"
  using assms
  by (simp add: getBalances_def authenticated_request_held
      demo_truthy demo_axios_get present_def arg_value_def)


lemma demo_key_issuance:
  "key_issuance (demo_client k0) (issuance_request (demo_client k1) now sig)"
  "\<not> key_issuance (demo_client k0) (own_request GET u p c)"
  by (simp_all add: key_issuance_def issuance_request_def own_request_def demo_truthy)

lemma demo_updateApiKey: "updateApiKey (demo_client k0) k1 = demo_client k1"
  by (simp add: updateApiKey_def demo_client_def)

text \<open>
  Claim C1 on concrete runs: \<open>getBalances()\<close> on a client with no key makes the key-issuance
  request and then its own, and holds the issued key afterwards, also after two more
  calls, which make no key issuance; on a client that holds the key \<open>K\<close> it makes no key
  issuance and keeps \<open>K\<close>.
\<close>

theorem lazy_provisioning_witness:
  "map (key_issuance (demo_client JUndefined))
     (new_requests demo_world
        (snd (snd (invoke demo_env (GetBalances None) (demo_client JUndefined) demo_world))))
     = [True, False]
   \<and> apiKey (fst (snd (invoke demo_env (GetBalances None) (demo_client JUndefined) demo_world)))
       = JStr ''K1''
   \<and> apiKey (fst (run demo_env [GetBalances None, GetOrderbooks]
         (fst (snd (invoke demo_env (GetBalances None) (demo_client JUndefined) demo_world)))
         (snd (snd (invoke demo_env (GetBalances None) (demo_client JUndefined) demo_world)))))
       = JStr ''K1''
   \<and> filter (key_issuance (demo_client JUndefined))
        (new_requests
          (snd (snd (invoke demo_env (GetBalances None) (demo_client JUndefined) demo_world)))
          (snd (run demo_env [GetBalances None, GetOrderbooks]
            (fst (snd (invoke demo_env (GetBalances None) (demo_client JUndefined) demo_world)))
            (snd (snd (invoke demo_env (GetBalances None) (demo_client JUndefined) demo_world))))))
       = []
   \<and> filter (key_issuance (demo_client (JStr ''K'')))
        (new_requests demo_world
          (snd (snd (invoke demo_env (GetBalances None) (demo_client (JStr ''K'')) demo_world))))
       = []
   \<and> apiKey (fst (snd (invoke demo_env (GetBalances None) (demo_client (JStr ''K'')) demo_world)))
       = JStr ''K''"
proof -
  let ?cU = "demo_client JUndefined"
  let ?cK = "demo_client (JStr ''K'')"
  let ?k = "GetBalances None"
  let ?ks = "[GetBalances None, GetOrderbooks]"
  obtain r c' w' where i: "invoke demo_env ?k ?cU demo_world = (r, c', w')"
    by (cases "invoke demo_env ?k ?cU demo_world") auto
  obtain c2 w2 where ru: "run demo_env ?ks c' w' = (c2, w2)"
    by (cases "run demo_env ?ks c' w'") auto
  obtain rK cK' wK' where iK: "invoke demo_env ?k ?cK demo_world = (rK, cK', wK')"
    by (cases "invoke demo_env ?k ?cK demo_world") auto
  have auth: "authenticated_call ?k" by simp
  note t = lazy_provisioning [OF auth i, of "JStr ''K1''" "updateApiKey ?cU (JStr ''K1'')"
      "\<lparr>sent = [issuance_request ?cU 1700000000000 (''signed:'' @ nonce_text 1700000000000)],
        clock_reads = Suc 0\<rparr>"]
  have h: "\<not> truthy (apiKey ?cU) \<and> generateApiKey demo_env ?cU demo_world =
       (Inr (JStr ''K1''), updateApiKey ?cU (JStr ''K1''),
        \<lparr>sent = [issuance_request ?cU 1700000000000 (''signed:'' @ nonce_text 1700000000000)],
          clock_reads = Suc 0\<rparr>)" and tk: "truthy (JStr ''K1'')"
    by (simp_all add: demo_truthy demo_generate)
  from t h tk have a: "apiKey c' = JStr ''K1''"
    and later: "\<forall>ks c2 w2. list_all (\<lambda>j. \<not> replaces_credential j) ks \<and> run demo_env ks c' w' = (c2, w2)
        \<longrightarrow> apiKey c2 = JStr ''K1'' \<and> filter (key_issuance ?cU) (new_requests w' w2) = []"
    by blast+
  have "list_all (\<lambda>j. \<not> replaces_credential j) ?ks" by simp
  with later ru have b: "apiKey c2 = JStr ''K1''"
    "filter (key_issuance ?cU) (new_requests w' w2) = []" by blast+
  have "invoke demo_env ?k ?cU demo_world =
      (Inr (JObj [(''ok'', JBool True)]), updateApiKey ?cU (JStr ''K1''),
       \<lparr>sent = [issuance_request ?cU 1700000000000 (''signed:'' @ nonce_text 1700000000000),
                own_request GET ''https://cax.piccadilly.autonity.org/api/balances'' None
                  (updateApiKey ?cU (JStr ''K1''))],
        clock_reads = Suc 0\<rparr>)"
    by (rule demo_getBalances_absent) simp
  with i have "sent w' =
      [issuance_request ?cU 1700000000000 (''signed:'' @ nonce_text 1700000000000),
       own_request GET ''https://cax.piccadilly.autonity.org/api/balances'' None
         (updateApiKey ?cU (JStr ''K1''))]"
    by auto
  then have m: "map (key_issuance ?cU) (new_requests demo_world w') = [True, False]"
    by (simp add: new_requests_def demo_world_def demo_key_issuance)
  from lazy_provisioning [OF auth iK] have c: "filter (key_issuance ?cK) (new_requests demo_world wK') = []"
    "apiKey cK' = apiKey ?cK" by (simp_all add: demo_truthy)
  show ?thesis
    unfolding i fst_conv snd_conv ru iK using m a b c by (simp add: demo_truthy)
qed


lemma demo_no_key_getBalances:
  "invoke demo_env_no_key (GetBalances None) (demo_client JUndefined) w =
     (Inr (JObj []), demo_client JUndefined,
      w\<lparr>clock_reads := Suc (clock_reads w),
        sent := sent w @
          [issuance_request (demo_client JUndefined) 1700000000000
             (''signed:'' @ nonce_text 1700000000000),
           own_request GET ''https://cax.piccadilly.autonity.org/api/balances'' None
             (demo_client JUndefined)]\<rparr>)"
  by (simp add: getBalances_def authenticated_request_def ensureApiKey_def generateApiKey_cases
      JSON_stringify_nonce_payload axios_request_def demo_env_no_key_def demo_env_def
      get_apikey_def demo_updateApiKey demo_truthy own_request_def present_def arg_value_def
      Let_def)

text \<open>
  Claim C1 as it was stated fails when the response to key issuance carries no key: after
  \<open>getBalances()\<close> the stored credential is still absent, and the next call of
  \<open>getBalances()\<close> asks for a key again.
\<close>

theorem lazy_provisioning_counterexample:
  "apiKey (fst (snd (invoke demo_env_no_key (GetBalances None) (demo_client JUndefined)
      demo_world))) = JUndefined
   \<and> map (key_issuance (demo_client JUndefined))
        (sent (snd (run demo_env_no_key [GetBalances None, GetBalances None]
           (demo_client JUndefined) demo_world)))
       = [True, False, True, False]"
  by (simp add: demo_no_key_getBalances [simplified] demo_truthy demo_world_def demo_key_issuance)

text \<open>
  Claim C9 on a concrete run: \<open>getBalances()\<close> on a client with no key changes the key and
  nothing else.
\<close>

theorem identity_unchanged_witness:
  "privateKey (fst (snd (invoke demo_env (GetBalances None) (demo_client JUndefined) demo_world)))
     = ''pk''
   \<and> wallet (fst (snd (invoke demo_env (GetBalances None) (demo_client JUndefined) demo_world)))
       = ''pk''
   \<and> address (fst (snd (invoke demo_env (GetBalances None) (demo_client JUndefined) demo_world)))
       = ''0xpk''
   \<and> baseUrl (fst (snd (invoke demo_env (GetBalances None) (demo_client JUndefined) demo_world)))
       = ''https://cax.piccadilly.autonity.org/api''
   \<and> filter (\<lambda>kv. fst kv \<noteq> ''API-Key'')
        (headers (config (fst (snd (invoke demo_env (GetBalances None) (demo_client JUndefined)
           demo_world))))) = []
   \<and> apiKey (fst (snd (invoke demo_env (GetBalances None) (demo_client JUndefined) demo_world)))
       = JStr ''K1''"
proof -
  obtain r c' w' where i: "invoke demo_env (GetBalances None) (demo_client JUndefined) demo_world
      = (r, c', w')"
    by (cases "invoke demo_env (GetBalances None) (demo_client JUndefined) demo_world") auto
  have "invoke demo_env (GetBalances None) (demo_client JUndefined) demo_world =
      (Inr (JObj [(''ok'', JBool True)]), updateApiKey (demo_client JUndefined) (JStr ''K1''),
       \<lparr>sent = [issuance_request (demo_client JUndefined) 1700000000000
                  (''signed:'' @ nonce_text 1700000000000),
                own_request GET ''https://cax.piccadilly.autonity.org/api/balances'' None
                  (updateApiKey (demo_client JUndefined) (JStr ''K1''))],
        clock_reads = Suc 0\<rparr>)"
    by (rule demo_getBalances_absent) simp
  with i have k: "apiKey c' = JStr ''K1''" by (auto simp add: updateApiKey_fields)
  show ?thesis
    unfolding i fst_conv snd_conv using identity_unchanged [OF i] k
    by (simp add: demo_client_def)
qed

text \<open>
  Claim C10 on a concrete run: \<open>getBalances()\<close> on a client whose key is the empty string
  reads the clock, makes the key-issuance request first and stores the issued key.
\<close>

theorem empty_key_is_absent_witness:
  "fst (snd (invoke demo_env (GetBalances None) (demo_client (JStr [])) demo_world))
     = updateApiKey (demo_client (JStr [])) (JStr ''K1'')
   \<and> clock_reads (snd (snd (invoke demo_env (GetBalances None) (demo_client (JStr []))
         demo_world))) = Suc 0
   \<and> take 1 (sent (snd (snd (invoke demo_env (GetBalances None) (demo_client (JStr []))
         demo_world))))
       = [issuance_request (demo_client (JStr [])) 1700000000000
            (''signed:'' @ nonce_text 1700000000000)]
   \<and> length (sent (snd (snd (invoke demo_env (GetBalances None) (demo_client (JStr []))
         demo_world)))) \<le> 2"
proof -
  let ?c = "demo_client (JStr [])"
  let ?w1 = "\<lparr>sent = [issuance_request ?c 1700000000000 (''signed:'' @ nonce_text 1700000000000)],
              clock_reads = Suc 0\<rparr>"
  obtain r c' w' where i: "invoke demo_env (GetBalances None) ?c demo_world = (r, c', w')"
    by (cases "invoke demo_env (GetBalances None) ?c demo_world") auto
  have auth: "authenticated_call (GetBalances None)" by simp
  have e: "apiKey ?c = JStr []" by (simp add: demo_truthy)
  note t = empty_key_is_absent [OF auth e i demo_generate [of "JStr []"]]
  from t have c: "c' = updateApiKey ?c (JStr ''K1'')"
    and k: "clock_reads w' = Suc (clock_reads demo_world)"
    and p: "take (length (sent ?w1)) (sent w') = sent ?w1"
    and l: "length (new_requests ?w1 w') \<le> 1"
    by blast+
  from p have p': "take 1 (sent w') =
      [issuance_request ?c 1700000000000 (''signed:'' @ nonce_text 1700000000000)]"
    by simp
  from l have l': "length (sent w') \<le> 2" by (simp add: new_requests_def)
  show ?thesis
    unfolding i fst_conv snd_conv using c k p' l' by (simp add: demo_world_def)
qed


lemma demo_present: "present (Some (c # cs))" "\<not> present None" "\<not> present (Some [])"
  "template (Some x) = x"
  by (simp_all add: present_def arg_value_def template_def)

lemma demo_ensure_held:
  "ensureApiKey demo_env (demo_client (JStr ''K'')) demo_world =
     (Inr (), demo_client (JStr ''K''), demo_world)"
  by (simp add: ensureApiKey_def demo_truthy)


lemma parse_month_13: "Date_parse demo_env ''2024-13-01T00:00:00'' = None"
  by (simp add: Date_parse_def demo_fields TimeClip_def date_parse_eval)

lemma demo_convert_month_13:
  "convertToISO8601 demo_env (JStr ''2024-13-01-00:00:00'') = Inl RangeError"
  by (simp add: convertToISO8601_def date_time_pattern_def is_digit_def parse_month_13
      toISOString_def)



text \<open>
  Claim C8 on concrete runs: the three parameters, none of them, and two of the three.
\<close>

theorem getDeposits_endpoint_witness:
  "new_requests demo_world
     (snd (snd (getDeposits demo_env (JStr ''2024-01-02-03:04:05'') (JStr ''2024-01-05-00:00:00'')
        (Some ''ATN'') (demo_client (JStr ''K'')) demo_world)))
     = [own_request GET
          (''https://cax.piccadilly.autonity.org/api/deposits/?end=2024-01-05T00:00:00.000Z''
             @ ''&start=2024-01-02T03:04:05.000Z&symbol=ATN'')
          None (demo_client (JStr ''K''))]
   \<and> new_requests demo_world
        (snd (snd (getDeposits demo_env JUndefined JUndefined None (demo_client (JStr ''K''))
           demo_world)))
       = [own_request GET ''https://cax.piccadilly.autonity.org/api/deposits'' None
            (demo_client (JStr ''K''))]
   \<and> new_requests demo_world
        (snd (snd (getDeposits demo_env (JStr ''2024-01-02-03:04:05'') JUndefined (Some ''ATN'')
           (demo_client (JStr ''K'')) demo_world)))
       = [own_request GET ''https://cax.piccadilly.autonity.org/api/deposits'' None
            (demo_client (JStr ''K''))]"
proof -
  let ?c = "demo_client (JStr ''K'')"
  let ?st = "JStr ''2024-01-02-03:04:05''"
  let ?en = "JStr ''2024-01-05-00:00:00''"
  obtain r c' w' where a: "getDeposits demo_env ?st ?en (Some ''ATN'') ?c demo_world = (r, c', w')"
    by (cases "getDeposits demo_env ?st ?en (Some ''ATN'') ?c demo_world") auto
  obtain r2 c2 w2 where b: "getDeposits demo_env JUndefined JUndefined None ?c demo_world
      = (r2, c2, w2)"
    by (cases "getDeposits demo_env JUndefined JUndefined None ?c demo_world") auto
  obtain r3 c3 w3 where c: "getDeposits demo_env ?st JUndefined (Some ''ATN'') ?c demo_world
      = (r3, c3, w3)"
    by (cases "getDeposits demo_env ?st JUndefined (Some ''ATN'') ?c demo_world") auto
  from getDeposits_endpoint [OF a demo_ensure_held]
  have x: "new_requests demo_world w' =
      [own_request GET
         (''https://cax.piccadilly.autonity.org/api/deposits/?end=2024-01-05T00:00:00.000Z''
            @ ''&start=2024-01-02T03:04:05.000Z&symbol=ATN'') None ?c]"
    by (simp add: demo_present demo_convert demo_truthy)
  from getDeposits_endpoint [OF b demo_ensure_held]
  have y: "new_requests demo_world w2 =
      [own_request GET ''https://cax.piccadilly.autonity.org/api/deposits'' None ?c]"
    by (simp add: demo_present demo_truthy)
  from getDeposits_endpoint [OF c demo_ensure_held]
  have z: "new_requests demo_world w3 =
      [own_request GET ''https://cax.piccadilly.autonity.org/api/deposits'' None ?c]"
    by (simp add: demo_present demo_truthy)
  show ?thesis unfolding a b c fst_conv snd_conv using x y z by simp
qed

text \<open>
  Claim C8 as it was stated fails: with all three parameters supplied and an end time
  that is not a date (a month 13), \<open>convertToISO8601\<close> throws a RangeError, and the call
  makes no request; the client holds a key and nothing is sent.
\<close>

theorem getDeposits_endpoint_counterexample:
  "getDeposits demo_env (JStr ''2024-01-02-03:04:05'') (JStr ''2024-13-01-00:00:00'')
      (Some ''ATN'') (demo_client (JStr ''K'')) demo_world
     = (Inl RangeError, demo_client (JStr ''K''), demo_world)
   \<and> sent demo_world = []"
  by (simp add: getDeposits_def authenticated_request_held demo_truthy demo_present
      time_range_def demo_convert_month_13 demo_world_def)

lemma demo_Cax_new: "Cax_new demo_env ''pk'' k0 = Inr (demo_client k0)"
  by (simp add: Cax_new_def demo_env_def demo_client_def)

text \<open>
  Claim C7 on concrete runs: a client constructed without a key has an absent header
  value; the key and the header agree after \<open>getBalances()\<close>, whose own request, made
  right after the key issuance, carries the issued key \<open>K1\<close>; and after
  \<open>updateApiKey("X")\<close> and a call of \<open>getOrderbooks\<close>, \<open>getBalances()\<close> makes one request,
  which carries \<open>API-Key: X\<close>.
\<close>

theorem credential_header_invariant_witness:
  "apiKey (demo_client JUndefined) = JUndefined
   \<and> API_Key_header (demo_client JUndefined) = Some JUndefined
   \<and> API_Key_header (fst (snd (invoke demo_env (GetBalances None) (demo_client JUndefined)
        demo_world)))
       = Some (apiKey (fst (snd (invoke demo_env (GetBalances None) (demo_client JUndefined)
           demo_world))))
   \<and> fst (snd (generateApiKey demo_env (demo_client JUndefined) demo_world))
       = updateApiKey (demo_client JUndefined) (JStr ''K1'')
   \<and> fst (snd (invoke demo_env (GetBalances None) (demo_client JUndefined) demo_world))
       = updateApiKey (demo_client JUndefined) (JStr ''K1'')
   \<and> map (header_of ''API-Key'')
        (tl (new_requests demo_world
           (snd (snd (invoke demo_env (GetBalances None) (demo_client JUndefined) demo_world)))))
       = [Some (JStr ''K1'')]
   \<and> map (header_of ''API-Key'')
        (new_requests
           (snd (run demo_env [GetOrderbooks] (updateApiKey (demo_client JUndefined) (JStr ''X''))
              demo_world))
           (snd (snd (invoke demo_env (GetBalances None)
              (fst (run demo_env [GetOrderbooks]
                 (updateApiKey (demo_client JUndefined) (JStr ''X'')) demo_world))
              (snd (run demo_env [GetOrderbooks]
                 (updateApiKey (demo_client JUndefined) (JStr ''X'')) demo_world))))))
       = [Some (JStr ''X'')]"
proof -
  let ?cU = "demo_client JUndefined"
  let ?cX = "updateApiKey ?cU (JStr ''X'')"
  obtain r c' w' where i: "invoke demo_env (GetBalances None) ?cU demo_world = (r, c', w')"
    by (cases "invoke demo_env (GetBalances None) ?cU demo_world") auto
  obtain c2 w2 where ru: "run demo_env [GetOrderbooks] ?cX demo_world = (c2, w2)"
    by (cases "run demo_env [GetOrderbooks] ?cX demo_world") auto
  obtain r3 c3 w3 where j: "invoke demo_env (GetBalances None) c2 w2 = (r3, c3, w3)"
    by (cases "invoke demo_env (GetBalances None) c2 w2") auto
  obtain rg cg wg where g: "generateApiKey demo_env ?cU demo_world = (rg, cg, wg)"
    by (cases "generateApiKey demo_env ?cU demo_world") auto
  with demo_generate [of JUndefined] have rg: "rg = Inr (JStr ''K1'')" by simp
  note t = credential_header_invariant [where env = demo_env and pk = "''pk''"
      and key = JUndefined and ?c0.0 = ?cU and c = ?cU and k = "GetBalances None"
      and w = demo_world and r = r and c' = c' and w' = w' and K = "JStr ''K1''"
      and ?c1.0 = cg and ?w1.0 = wg and X = "JStr ''X''"
      and ks = "[GetOrderbooks]" and ?c2.0 = c2 and ?w2.0 = w2 and j = "GetBalances None"
      and ?r2.0 = r3 and ?c3.0 = c3 and ?w3.0 = w3]
  from t g rg have p3: "cg = updateApiKey ?cU (JStr ''K1'')" by blast
  have h0: "API_Key_header ?cU = Some (apiKey ?cU)"
    by (simp add: API_Key_header_def demo_client_def)
  from t demo_Cax_new [of JUndefined] have p1: "apiKey ?cU = JUndefined"
    "API_Key_header ?cU = Some JUndefined" by blast+
  from t h0 i have p2: "API_Key_header c' = Some (apiKey c')" by blast
  have n: "\<not> truthy (apiKey ?cU)" by (simp add: demo_truthy)
  have au: "authenticated_call (GetBalances None)" "\<not> takes_time_range (GetBalances None)"
    by simp_all
  from t n au(1) i g rg have "c' = updateApiKey ?cU (JStr ''K1'')
      \<and> (\<exists>i. key_issuance ?cU i
           \<and> ((\<exists>q. new_requests demo_world w' = [i, q] \<and> \<not> key_issuance ?cU q
                    \<and> header_of ''API-Key'' q = Some (JStr ''K1''))
              \<or> (new_requests demo_world w' = [i] \<and> takes_time_range (GetBalances None)
                   \<and> (r = Inl TypeError \<or> r = Inl RangeError))))"
    by blast
  with au(2) have p4: "c' = updateApiKey ?cU (JStr ''K1'')"
    "map (header_of ''API-Key'') (tl (new_requests demo_world w')) = [Some (JStr ''K1'')]"
    by auto
  have tx: "truthy (JStr ''X'')" "list_all (\<lambda>j. \<not> replaces_credential j) [GetOrderbooks]"
    by simp_all
  from t tx ru au(1) j have "apiKey c3 = JStr ''X''
      \<and> ((\<exists>q. new_requests w2 w3 = [q] \<and> \<not> key_issuance ?cU q
               \<and> header_of ''API-Key'' q = Some (JStr ''X''))
         \<or> (new_requests w2 w3 = [] \<and> takes_time_range (GetBalances None)
              \<and> (r3 = Inl TypeError \<or> r3 = Inl RangeError)))"
    by blast
  with au(2) have p5: "map (header_of ''API-Key'') (new_requests w2 w3) = [Some (JStr ''X'')]"
    by auto
  show ?thesis
    unfolding ru fst_conv snd_conv j i g using p1 p2 p3 p4 p5 by simp
qed

end
